theory Spec2Isabelle
  imports Complex_Main "HOL-Library.Sublist"
begin

section \<open>VideoSort: file placement, backup log, identification pipeline\<close>

text \<open>
  A shallow embedding of the decision logic of the VideoSort sources
  (\<^verbatim>\<open>files_ops.py\<close>, \<^verbatim>\<open>utils.py\<close>, \<^verbatim>\<open>video_analysis.py\<close>, \<^verbatim>\<open>tmdb_api.py\<close>,
  \<^verbatim>\<open>process.py\<close>). Strings are byte strings; exceptions are values of a sum type
  (\<open>Inl\<close> carries the exception); the file system, the backup log and the HTTP service are
  explicit state.
\<close>

subsection \<open>Python values\<close>

text \<open>An exception, carrying the text that \<^verbatim>\<open>str(e)\<close> gives.\<close>

datatype exn = Exn string

text \<open>
  The JSON values found at the keys the program reads: \<^verbatim>\<open>null\<close>, numbers and strings.
  A JSON object is an association list from keys to values, in document order.
\<close>

datatype jval = JNull | JNum rat | JStr string

type_synonym item = "(string \<times> jval) list"

text \<open>Python truthiness of a value and of a dictionary.\<close>

fun truthy :: "jval \<Rightarrow> bool" where
  "truthy JNull = False"
| "truthy (JNum r) = (r \<noteq> 0)"
| "truthy (JStr s) = (s \<noteq> [])"

definition dict_get :: "item \<Rightarrow> string \<Rightarrow> jval \<Rightarrow> jval" where
  "dict_get d k dflt = (case map_of d k of None \<Rightarrow> dflt | Some v \<Rightarrow> v)"

subsection \<open>Characters and paths (\<^verbatim>\<open>str.lower\<close>, \<^verbatim>\<open>posixpath\<close>)\<close>

definition lower_char :: "char \<Rightarrow> char" where
  "lower_char c =
     (case map_of (zip ''ABCDEFGHIJKLMNOPQRSTUVWXYZ'' ''abcdefghijklmnopqrstuvwxyz'') c of
        None \<Rightarrow> c | Some d \<Rightarrow> d)"

definition lower :: "string \<Rightarrow> string" where
  "lower s = map lower_char s"

definition is_digit :: "char \<Rightarrow> bool" where
  "is_digit c = (c \<in> set ''0123456789'')"

text \<open>\<^verbatim>\<open>os.path.basename(p)\<close>: the text after the last \<^verbatim>\<open>/\<close>.\<close>

definition basename :: "string \<Rightarrow> string" where
  "basename p = rev (takeWhile (\<lambda>c. c \<noteq> CHR ''/'') (rev p))"

text \<open>The head that \<^verbatim>\<open>os.path.split\<close> cuts off: everything up to and including the last \<^verbatim>\<open>/\<close>.\<close>

definition head_part :: "string \<Rightarrow> string" where
  "head_part p = rev (dropWhile (\<lambda>c. c \<noteq> CHR ''/'') (rev p))"

text \<open>
  \<^verbatim>\<open>os.path.dirname(p)\<close>: the head, with trailing slashes removed unless it consists of
  slashes only.
\<close>

definition dirname :: "string \<Rightarrow> string" where
  "dirname p =
     (let h = head_part p
      in if h \<noteq> [] \<and> (\<exists>c \<in> set h. c \<noteq> CHR ''/'')
         then rev (dropWhile (\<lambda>c. c = CHR ''/'') (rev h)) else h)"

text \<open>
  \<^verbatim>\<open>os.path.splitext(p)\<close>: the extension starts at the last dot of the last component,
  provided some character of that component before the dot is not a dot.
\<close>

definition splitext :: "string \<Rightarrow> string \<times> string" where
  "splitext p =
     (let name = basename p;
          ext = rev (takeWhile (\<lambda>c. c \<noteq> CHR ''.'') (rev name));
          stem = rev (dropWhile (\<lambda>c. c \<noteq> CHR ''.'') (rev name))
      in if stem \<noteq> [] \<and> (\<exists>c \<in> set (butlast stem). c \<noteq> CHR ''.'')
         then (head_part p @ butlast stem, CHR ''.'' # ext)
         else (p, []))"

text \<open>\<^verbatim>\<open>os.path.join(a, b)\<close> for two components.\<close>

definition path_join :: "string \<Rightarrow> string \<Rightarrow> string" where
  "path_join a b =
     (if b \<noteq> [] \<and> hd b = CHR ''/'' then b
      else if a = [] \<or> last a = CHR ''/'' then a @ b
      else a @ ''/'' @ b)"

text \<open>
  \<^verbatim>\<open>utils.sanitize_filename\<close>; the characters removed are those of the class
  \<^verbatim>\<open>[<>:"/\\|?*]\<close> (\<open>CHR 0x22\<close> is the double quote, \<open>CHR 0x5C\<close> the backslash).
\<close>

definition sanitize_filename :: "string \<Rightarrow> string" where
  "sanitize_filename filename =
     (let f = filter (\<lambda>c. c \<notin> set (''<>:/|?*'' @ [CHR 0x22, CHR 0x5C])) filename
      in if length f > 240
         then (let (base, ext) = splitext f in take 236 base @ ext)
         else f)"

subsection \<open>Decimal numerals (\<^verbatim>\<open>int(s)\<close>, \<^verbatim>\<open>str(n)\<close>, \<^verbatim>\<open>f"{n:02d}"\<close>)\<close>

definition digit_val :: "char \<Rightarrow> nat" where
  "digit_val c = (case map_of (zip ''0123456789'' [0, 1, 2, 3, 4, 5, 6, 7, 8, 9]) c of
                    None \<Rightarrow> 0 | Some d \<Rightarrow> d)"

text \<open>\<^verbatim>\<open>int(s)\<close> on a string of decimal digits.\<close>

definition int_of_digits :: "string \<Rightarrow> int" where
  "int_of_digits s = int (foldl (\<lambda>acc c. 10 * acc + digit_val c) 0 s)"

definition digit_char :: "nat \<Rightarrow> char" where
  "digit_char d = ''0123456789'' ! (d mod 10)"

function str_nat :: "nat \<Rightarrow> string" where
  "str_nat n = (if n < 10 then [digit_char n] else str_nat (n div 10) @ [digit_char (n mod 10)])"
  by pat_completeness auto
termination
  by (relation "measure id") auto

text \<open>\<^verbatim>\<open>f"{n:02d}"\<close>: zero padding to width two, the sign counted in the width.\<close>

definition fmt_02d :: "int \<Rightarrow> string" where
  "fmt_02d n =
     (if n < 0
      then CHR ''-'' # str_nat (nat (- n))
      else (let s = str_nat (nat n) in if length s < 2 then CHR ''0'' # s else s))"

subsection \<open>The file system\<close>

text \<open>
  Regular files only: a path is mapped to the content of the file there. Directories are
  created on demand by \<^verbatim>\<open>os.makedirs\<close> and are not tracked. The two library calls that can
  fail raise when the environment says so (\<open>Some msg\<close> is the exception's text).
\<close>

type_synonym fs = "string \<Rightarrow> string option"

definition path_exists :: "fs \<Rightarrow> string \<Rightarrow> bool" where
  "path_exists files p = (files p \<noteq> None)"

record os_env =
  makedirs_raises :: "string \<Rightarrow> string option"
  move_raises :: "string \<Rightarrow> string \<Rightarrow> string option"
  append_raises :: "nat \<Rightarrow> string option"
  now :: string

text \<open>\<^verbatim>\<open>os.makedirs(d, exist_ok=True)\<close>; the empty path raises \<^verbatim>\<open>FileNotFoundError\<close>.\<close>

definition makedirs :: "os_env \<Rightarrow> string \<Rightarrow> exn + unit" where
  "makedirs env d =
     (if d = [] then Inl (Exn ''[Errno 2] No such file or directory'')
      else case makedirs_raises env d of Some msg \<Rightarrow> Inl (Exn msg) | None \<Rightarrow> Inr ())"

text \<open>
  \<^verbatim>\<open>shutil.move(src, dst)\<close> to a path that is not a directory: the file at \<^verbatim>\<open>dst\<close>, if
  there is one, is replaced (\<^verbatim>\<open>os.rename\<close>, or copy and unlink when the rename fails).
\<close>

definition shutil_move :: "os_env \<Rightarrow> fs \<Rightarrow> string \<Rightarrow> string \<Rightarrow> exn + fs" where
  "shutil_move env files src dst =
     (case move_raises env src dst of
        Some msg \<Rightarrow> Inl (Exn msg)
      | None \<Rightarrow>
          (case files src of
             None \<Rightarrow> Inl (Exn ''[Errno 2] No such file or directory'')
           | Some content \<Rightarrow>
               if src = dst then Inr files
               else Inr ((files(src := None))(dst \<mapsto> content))))"

subsection \<open>\<^verbatim>\<open>files_ops.safe_move_file\<close>\<close>

text \<open>The name used when the destination exists: \<^verbatim>\<open>f"{base}_duplicado{ext}"\<close>.\<close>

definition duplicate_name :: "string \<Rightarrow> string" where
  "duplicate_name dest_path = (let (base, ext) = splitext dest_path in base @ ''_duplicado'' @ ext)"

definition safe_move_file :: "os_env \<Rightarrow> fs \<Rightarrow> string \<Rightarrow> string \<Rightarrow> bool \<Rightarrow> bool \<times> fs" where
  "safe_move_file env files source_path dest_path create_dirs =
     (if \<not> path_exists files source_path then (False, files)
      else
        (case (if create_dirs then makedirs env (dirname dest_path) else Inr ()) of
           Inl e \<Rightarrow> (False, files)
         | Inr _ \<Rightarrow>
             (let dest = (if path_exists files dest_path then duplicate_name dest_path
                          else dest_path)
              in case shutil_move env files source_path dest of
                   Inl e \<Rightarrow> (False, files)
                 | Inr files' \<Rightarrow> (True, files'))))"

subsection \<open>The backup log (\<^verbatim>\<open>files_ops.append_to_backup\<close>)\<close>

text \<open>One row of the CSV file, with the columns of the source.\<close>

record backup_row =
  nombre_original :: string
  ruta_original :: string
  nombre_nuevo :: string
  ruta_nueva :: string
  status :: string
  timestamp :: string

definition new_row :: "string \<Rightarrow> string \<Rightarrow> string \<Rightarrow> string \<Rightarrow> string \<Rightarrow> backup_row" where
  "new_row no ro nn rn st =
     \<lparr>nombre_original = no, ruta_original = ro, nombre_nuevo = nn, ruta_nueva = rn,
      status = st, timestamp = []\<rparr>"

text \<open>
  The row gets its timestamp (the dictionary passed in is updated, so the caller sees it
  too) and is written at the end of the file; an exception while writing is caught and
  nothing is appended.
\<close>

definition stamped :: "os_env \<Rightarrow> backup_row \<Rightarrow> backup_row" where
  "stamped env row = row\<lparr>timestamp := now env\<rparr>"

definition append_to_backup :: "os_env \<Rightarrow> backup_row list \<Rightarrow> backup_row \<Rightarrow> bool \<times> backup_row list" where
  "append_to_backup env bklog row =
     (case append_raises env (length bklog) of
        Some msg \<Rightarrow> (False, bklog)
      | None \<Rightarrow> (True, bklog @ [stamped env row]))"

subsection \<open>The result of the identification (\<^verbatim>\<open>process.process_single_video\<close>)\<close>

text \<open>
  The three dictionaries \<^verbatim>\<open>process_single_video\<close> returns: an identified file, a file that
  no source identified, and a failure (invalid file, or an exception) that carries a
  message only. \<open>None\<close> in a field is Python's \<^verbatim>\<open>None\<close>.
\<close>

datatype result_info =
  Identified (es_pelicula: "bool option") (info: item) (quality: string)
    (season: "int option") (episode: "int option")
    (detected_studios: "string list") (detected_actors: "string list")
| Unidentified (quality: string) (detected_studios: "string list")
    (detected_actors: "string list")
| Failed (mensaje: string)

subsection \<open>Destination paths (\<^verbatim>\<open>create_movie_path\<close>, \<^verbatim>\<open>create_tv_path\<close>, \<^verbatim>\<open>create_studio_path\<close>)\<close>

definition type_error :: exn where
  "type_error = Exn ''expected string or bytes-like object''"

text \<open>\<^verbatim>\<open>sanitize_filename(title)\<close>: \<^verbatim>\<open>re.sub\<close> raises \<^verbatim>\<open>TypeError\<close> on a value that is no string.\<close>

fun sanitize_value :: "jval \<Rightarrow> exn + string" where
  "sanitize_value (JStr s) = Inr (sanitize_filename s)"
| "sanitize_value v = Inl type_error"

text \<open>\<^verbatim>\<open>info.get(key, '')[:4] if info.get(key) else 'Unknown'\<close>.\<close>

definition year_of :: "item \<Rightarrow> string \<Rightarrow> exn + string" where
  "year_of d key =
     (let v = dict_get d key (JStr [])
      in if truthy v
         then (case v of JStr s \<Rightarrow> Inr (take 4 s)
               | _ \<Rightarrow> Inl (Exn ''object is not subscriptable''))
         else Inr ''Unknown'')"

definition create_movie_path :: "string \<Rightarrow> jval \<Rightarrow> string \<Rightarrow> string \<Rightarrow> string \<Rightarrow> exn + string \<times> string" where
  "create_movie_path base_dir title year qual extension =
     (case sanitize_value title of
        Inl e \<Rightarrow> Inl e
      | Inr safe_title \<Rightarrow>
          (let folder_name = safe_title @ '' ('' @ year @ '')'';
               file_name = safe_title @ '' ('' @ year @ '') ['' @ qual @ '']'' @ extension;
               movie_dir = path_join (path_join base_dir ''Movies'') folder_name
           in Inr (movie_dir, path_join movie_dir file_name)))"

text \<open>\<^verbatim>\<open>int(season)\<close> raises \<^verbatim>\<open>TypeError\<close> on \<^verbatim>\<open>None\<close>.\<close>

definition create_tv_path ::
  "string \<Rightarrow> jval \<Rightarrow> string \<Rightarrow> int option \<Rightarrow> int option \<Rightarrow> string \<Rightarrow> string \<Rightarrow> exn + string \<times> string" where
  "create_tv_path base_dir title year seas epis qual extension =
     (case sanitize_value title of
        Inl e \<Rightarrow> Inl e
      | Inr safe_title \<Rightarrow>
          (case (seas, epis) of
             (Some s, Some e) \<Rightarrow>
               (let season_str = fmt_02d s;
                    episode_str = fmt_02d e;
                    series_folder = safe_title @ '' ('' @ year @ '')'';
                    season_folder = ''Season '' @ season_str;
                    file_name = safe_title @ '' S'' @ season_str @ ''E'' @ episode_str
                                @ '' ['' @ qual @ '']'' @ extension;
                    season_dir = path_join (path_join (path_join base_dir ''Shows'') series_folder)
                                   season_folder
                in Inr (season_dir, path_join season_dir file_name))
           | _ \<Rightarrow> Inl (Exn ''int() argument must be a string or a real number'')))"

definition create_studio_path :: "string \<Rightarrow> string option \<Rightarrow> string \<Rightarrow> string \<times> string" where
  "create_studio_path base_dir studio_name original_filename =
     (let studio_folder = (case studio_name of
                             None \<Rightarrow> ''SinCadenaTelevisiva''
                           | Some n \<Rightarrow> if n = [] then ''SinCadenaTelevisiva''
                                       else sanitize_filename n);
          studio_dir = path_join (path_join base_dir ''ByStudio'') studio_folder
      in (studio_dir, path_join studio_dir original_filename))"

text \<open>The destination chosen inside the \<^verbatim>\<open>try\<close> block of \<^verbatim>\<open>process_file_operation\<close>.\<close>

fun destination :: "result_info \<Rightarrow> string \<Rightarrow> string \<Rightarrow> string \<Rightarrow> exn + string \<times> string" where
  "destination (Identified is_movie nfo qual seas epis studios actors) output_dir
       original_filename extension =
     (if is_movie = Some True
      then (case year_of nfo ''release_date'' of
              Inl e \<Rightarrow> Inl e
            | Inr year \<Rightarrow>
                create_movie_path output_dir (dict_get nfo ''title'' (JStr ''Unknown'')) year qual
                  extension)
      else (case year_of nfo ''first_air_date'' of
              Inl e \<Rightarrow> Inl e
            | Inr year \<Rightarrow>
                create_tv_path output_dir (dict_get nfo ''name'' (JStr ''Unknown'')) year seas epis
                  qual extension))"
| "destination (Unidentified qual studios actors) output_dir original_filename extension =
     Inr (create_studio_path output_dir (if studios \<noteq> [] then Some (hd studios) else None)
            original_filename)"
| "destination (Failed msg) output_dir original_filename extension =
     Inr (create_studio_path output_dir None original_filename)"

subsection \<open>\<^verbatim>\<open>files_ops.process_file_operation\<close>\<close>

text \<open>
  The state is the file system and the backup log; the function returns the row it
  built with the state after the move and the append.
\<close>

definition process_file_operation ::
  "os_env \<Rightarrow> fs \<Rightarrow> backup_row list \<Rightarrow> string \<Rightarrow> result_info \<Rightarrow> string
     \<Rightarrow> backup_row \<times> fs \<times> backup_row list" where
  "process_file_operation env files bklog source_path result output_dir =
     (if \<not> path_exists files source_path
      then (let row = new_row (basename source_path) source_path [] [] ''error_origen''
            in (stamped env row, files, snd (append_to_backup env bklog row)))
      else
        (let original_filename = basename source_path;
             extension = lower (snd (splitext original_filename))
         in case destination result output_dir original_filename extension of
              Inl (Exn msg) \<Rightarrow>
                (let row = new_row original_filename source_path [] [] (''error: '' @ msg)
                 in (stamped env row, files, snd (append_to_backup env bklog row)))
            | Inr (dest_dir, dest_file) \<Rightarrow>
                (let (moved, files') = safe_move_file env files source_path dest_file True;
                     row = new_row original_filename source_path (basename dest_file) dest_file
                             (if moved then ''success'' else ''error_mover'')
                 in (stamped env row, files', snd (append_to_backup env bklog row)))))"

text \<open>
  The per-file step of \<^verbatim>\<open>process.process_batch\<close>: with \<^verbatim>\<open>rename_files\<close> off the file is
  only recorded.
\<close>

definition batch_file_step ::
  "bool \<Rightarrow> os_env \<Rightarrow> fs \<Rightarrow> backup_row list \<Rightarrow> string \<Rightarrow> result_info \<Rightarrow> string
     \<Rightarrow> backup_row \<times> fs \<times> backup_row list" where
  "batch_file_step rename_files env files bklog video result output_dir =
     (if rename_files
      then process_file_operation env files bklog video result output_dir
      else (let row = new_row (basename video) video [] [] ''no_action''
            in (stamped env row, files, snd (append_to_backup env bklog row))))"

subsection \<open>\<^verbatim>\<open>files_ops.restore_from_backup\<close>\<close>

text \<open>
  The state of a restore: the file system, the two counters, and the rows for which
  \<^verbatim>\<open>shutil.move\<close> was called, in the order of the calls.
\<close>

record restore_state =
  disk :: fs
  restored :: nat
  errors :: nat
  moved :: "backup_row list"

text \<open>
  The body of the loop for one row. \<^verbatim>\<open>os.makedirs\<close> is outside the inner \<^verbatim>\<open>try\<close>: its
  exception leaves the loop (\<open>Inl\<close>); an exception of \<^verbatim>\<open>shutil.move\<close> is counted.
\<close>

definition restore_row :: "os_env \<Rightarrow> backup_row \<Rightarrow> restore_state \<Rightarrow> exn + restore_state" where
  "restore_row env row st =
     (if status row = ''success'' \<and> path_exists (disk st) (ruta_nueva row)
      then (case makedirs env (dirname (ruta_original row)) of
              Inl e \<Rightarrow> Inl e
            | Inr _ \<Rightarrow>
                (case shutil_move env (disk st) (ruta_nueva row) (ruta_original row) of
                   Inl e \<Rightarrow> Inr (st\<lparr>errors := errors st + 1, moved := moved st @ [row]\<rparr>)
                 | Inr files' \<Rightarrow>
                     Inr (st\<lparr>disk := files', restored := restored st + 1,
                              moved := moved st @ [row]\<rparr>)))
      else Inr st)"

text \<open>The rows are read in file order; an exception that leaves the loop is caught after it.\<close>

fun restore_rows :: "os_env \<Rightarrow> backup_row list \<Rightarrow> restore_state \<Rightarrow> restore_state" where
  "restore_rows env [] st = st"
| "restore_rows env (row # rows) st =
     (case restore_row env row st of
        Inl e \<Rightarrow> st
      | Inr st' \<Rightarrow> restore_rows env rows st')"

text \<open>\<open>None\<close> for the log: the backup file does not exist.\<close>

definition restore_from_backup :: "os_env \<Rightarrow> fs \<Rightarrow> backup_row list option \<Rightarrow> restore_state" where
  "restore_from_backup env fs0 backup =
     (let st0 = \<lparr>disk = fs0, restored = 0, errors = 0, moved = []\<rparr>
      in case backup of None \<Rightarrow> st0 | Some rows \<Rightarrow> restore_rows env rows st0)"

subsection \<open>Regular expressions (\<^verbatim>\<open>re.search\<close> with \<^verbatim>\<open>re.IGNORECASE\<close>)\<close>

text \<open>
  The patterns of the sources are sequences of single-character classes under a greedy
  repetition: a literal character (compared without case), \<^verbatim>\<open>\d\<close> and \<^verbatim>\<open>[^0-9]\<close>, each
  repeated between a lower and an optional upper bound, some of them a capture group.
  File names are byte strings, so \<^verbatim>\<open>\d\<close> is an ASCII digit.
\<close>

datatype cclass = Digit | NonDigit | Lit char

fun class_matches :: "cclass \<Rightarrow> char \<Rightarrow> bool" where
  "class_matches Digit c = is_digit c"
| "class_matches NonDigit c = (\<not> is_digit c)"
| "class_matches (Lit l) c = (lower_char c = lower_char l)"

text \<open>\<open>Piece cls lo hi cap\<close>: the class, the bounds of the repetition, and whether it is a group.\<close>

datatype piece = Piece cclass nat "nat option" bool

text \<open>The first alternative that succeeds, in the order of the list.\<close>

fun first_match :: "('a \<Rightarrow> 'b option) \<Rightarrow> 'a list \<Rightarrow> 'b option" where
  "first_match f [] = None"
| "first_match f (k # ks) = (case f k of Some r \<Rightarrow> Some r | None \<Rightarrow> first_match f ks)"

text \<open>The longest repetition a piece can take at the head of a string.\<close>

definition reach :: "cclass \<Rightarrow> nat option \<Rightarrow> string \<Rightarrow> nat" where
  "reach cls hi s =
     (let avail = length (takeWhile (class_matches cls) s)
      in case hi of None \<Rightarrow> avail | Some h \<Rightarrow> min h avail)"

text \<open>
  Matching at the head of a string, by backtracking: a piece takes the longest
  repetition first and gives characters back one at a time, down to its lower bound,
  until the rest of the pattern matches. The result is the list of the groups.
\<close>

fun match_here :: "piece list \<Rightarrow> string \<Rightarrow> string list option" where
  "match_here [] s = Some []"
| "match_here (Piece cls lo hi cap # ps) s =
     first_match
       (\<lambda>k. case match_here ps (drop k s) of
               None \<Rightarrow> None
             | Some gs \<Rightarrow> Some (if cap then take k s # gs else gs))
       (rev [lo ..< Suc (reach cls hi s)])"

text \<open>Whether a piece is a capture group.\<close>

fun is_group :: "piece \<Rightarrow> bool" where
  "is_group (Piece cls lo hi cap) = cap"

text \<open>\<^verbatim>\<open>re.search\<close>: the match at the leftmost position that has one.\<close>

fun re_search :: "piece list \<Rightarrow> string \<Rightarrow> string list option" where
  "re_search ps [] = match_here ps []"
| "re_search ps (c # cs) =
     (case match_here ps (c # cs) of Some gs \<Rightarrow> Some gs | None \<Rightarrow> re_search ps cs)"

definition lits :: "string \<Rightarrow> piece list" where
  "lits s = map (\<lambda>c. Piece (Lit c) 1 (Some 1) False) s"

text \<open>\<^verbatim>\<open>(\d+)\<close>, \<^verbatim>\<open>[^0-9]*\<close> and \<^verbatim>\<open>[^0-9]\<close>.\<close>

definition digits1 :: piece where
  "digits1 = Piece Digit 1 None True"

definition nondigits0 :: piece where
  "nondigits0 = Piece NonDigit 0 None False"

definition nondigit :: piece where
  "nondigit = Piece NonDigit 1 (Some 1) False"

subsection \<open>\<^verbatim>\<open>video_analysis.extract_season_episode_from_filename\<close>\<close>

text \<open>\<^verbatim>\<open>S(\d+)E(\d+)\<close> and \<^verbatim>\<open>(\d+)x(\d+)\<close>, the first two patterns of the list.\<close>

definition pattern_SxxEyy :: "piece list" where
  "pattern_SxxEyy = lits ''S'' @ [digits1] @ lits ''E'' @ [digits1]"

definition pattern_NxNN :: "piece list" where
  "pattern_NxNN = [digits1] @ lits ''x'' @ [digits1]"

text \<open>The seven patterns, in the order of the source.\<close>

definition patterns :: "piece list list" where
  "patterns =
     [pattern_SxxEyy,
      pattern_NxNN,
      [nondigit, Piece Digit 1 (Some 2) True, Piece Digit 2 (Some 2) True, nondigit],
      lits ''Season'' @ [nondigits0, digits1, nondigits0] @ lits ''Episode''
        @ [nondigits0, digits1],
      lits ''Temporada'' @ [nondigits0, digits1, nondigits0] @ lits ''Capitulo''
        @ [nondigits0, digits1],
      lits ''T'' @ [digits1, nondigits0] @ lits ''C'' @ [digits1],
      lits ''Temp'' @ [digits1, nondigits0] @ lits ''Cap'' @ [digits1]]"

text \<open>
  The loop over the patterns: the first pattern that is found decides.
  \<^verbatim>\<open>season, episode = match.groups()\<close> raises \<^verbatim>\<open>ValueError\<close> unless there are two groups.
\<close>

fun first_pattern :: "piece list list \<Rightarrow> string \<Rightarrow> exn + (int option \<times> int option)" where
  "first_pattern [] filename = Inr (None, None)"
| "first_pattern (p # ps) filename =
     (case re_search p filename of
        Some gs \<Rightarrow>
          (case gs of
             [seas, epis] \<Rightarrow> Inr (Some (int_of_digits seas), Some (int_of_digits epis))
           | _ \<Rightarrow> Inl (Exn ''not enough values to unpack''))
      | None \<Rightarrow> first_pattern ps filename)"

definition extract_season_episode_from_filename ::
  "string \<Rightarrow> exn + (int option \<times> int option)" where
  "extract_season_episode_from_filename filename = first_pattern patterns filename"

text \<open>
  What the specification calls an \<^verbatim>\<open>SxxEyy\<close> and an \<^verbatim>\<open>NxNN\<close> pattern, at the head of a
  string: the letter, a number, the letter, a number; a number, the letter, a number.
\<close>

definition starts_SxxEyy :: "string \<Rightarrow> bool" where
  "starts_SxxEyy t =
     (\<exists>s ds1 e ds2 post.
        t = s # ds1 @ e # ds2 @ post \<and> s \<in> {CHR ''S'', CHR ''s''} \<and> e \<in> {CHR ''E'', CHR ''e''}
        \<and> ds1 \<noteq> [] \<and> ds2 \<noteq> [] \<and> list_all is_digit ds1 \<and> list_all is_digit ds2)"


subsection \<open>The metadata service (\<^verbatim>\<open>requests.get\<close> on the TMDb endpoints)\<close>

text \<open>
  A call either raises (\<open>Raises\<close> stands for any exception of the request or of the
  decoding of its body) or answers with a status code and a body. The body is given at
  the shape the program reads: the list under \<^verbatim>\<open>results\<close> of a search (empty when the
  key is missing), the object of a detail request, the list under \<^verbatim>\<open>cast\<close> of a credits
  request (\<open>None\<close> when the key is missing). The service may answer the same request
  differently each time: the first argument of every endpoint is the number of requests
  made before.
\<close>

datatype 'a response = Raises string | Status nat 'a

record tmdb =
  search :: "nat \<Rightarrow> bool \<Rightarrow> string \<Rightarrow> string \<Rightarrow> item list response"
  detail :: "nat \<Rightarrow> bool \<Rightarrow> jval \<Rightarrow> item response"
  person :: "nat \<Rightarrow> string \<Rightarrow> item list response"
  credits :: "nat \<Rightarrow> bool \<Rightarrow> jval \<Rightarrow> item list option response"

record config =
  output_language :: string
  capture_frames :: bool
  detect_actors :: bool
  detect_studios :: bool

text \<open>Truthiness of \<^verbatim>\<open>result\<close>: \<^verbatim>\<open>None\<close> and the empty dictionary are false.\<close>

fun truthy_dict :: "item option \<Rightarrow> bool" where
  "truthy_dict None = False"
| "truthy_dict (Some d) = (d \<noteq> [])"

text \<open>Python's \<^verbatim>\<open>>\<close> on two values: numbers and strings compare with their own kind only.\<close>

fun str_less :: "string \<Rightarrow> string \<Rightarrow> bool" where
  "str_less [] [] = False"
| "str_less [] (d # ds) = True"
| "str_less (c # cs) [] = False"
| "str_less (c # cs) (d # ds) = ((of_char c :: nat) < of_char d \<or> (c = d \<and> str_less cs ds))"

fun py_gt :: "jval \<Rightarrow> jval \<Rightarrow> exn + bool" where
  "py_gt (JNum a) (JNum b) = Inr (b < a)"
| "py_gt (JStr a) (JStr b) = Inr (str_less b a)"
| "py_gt v w = Inl (Exn ''> not supported between these instances'')"

text \<open>
  \<^verbatim>\<open>best_result is None or result.get('popularity', 0) > best_result.get('popularity', 0)\<close>.
\<close>

definition improves :: "item \<Rightarrow> item option \<Rightarrow> exn + bool" where
  "improves result best =
     (case best of
        None \<Rightarrow> Inr True
      | Some b \<Rightarrow> py_gt (dict_get result ''popularity'' (JNum 0))
                    (dict_get b ''popularity'' (JNum 0)))"

subsection \<open>\<^verbatim>\<open>tmdb_api.search_tmdb_multilang\<close>\<close>

text \<open>
  The body of the loop for one language, inside the \<^verbatim>\<open>try\<close>: the state is
  \<^verbatim>\<open>(best_result, result_type)\<close>, the number is the count of requests made. \<open>Inl\<close> is an
  exception that reaches the handler.
\<close>

definition search_lang ::
  "tmdb \<Rightarrow> config \<Rightarrow> string \<Rightarrow> bool \<Rightarrow> string \<Rightarrow> item option \<times> bool option \<Rightarrow> nat
     \<Rightarrow> (exn + item option \<times> bool option) \<times> nat" where
  "search_lang svc cfg query is_series lang best n =
     (case search svc n is_series query lang of
        Raises msg \<Rightarrow> (Inl (Exn msg), Suc n)
      | Status code results \<Rightarrow>
          if code = 200 then
            (case results of
               [] \<Rightarrow> (Inr best, Suc n)
             | result # others \<Rightarrow>
                 (case improves result (fst best) of
                    Inl e \<Rightarrow> (Inl e, Suc n)
                  | Inr False \<Rightarrow> (Inr best, Suc n)
                  | Inr True \<Rightarrow>
                      if lang \<noteq> ''en'' \<and> output_language cfg = ''en'' then
                        (case map_of result ''id'' of
                           None \<Rightarrow> (Inl (Exn ''id''), Suc n)
                         | Some id_result \<Rightarrow>
                             (case detail svc (Suc n) is_series id_result of
                                Raises msg \<Rightarrow> (Inl (Exn msg), Suc (Suc n))
                              | Status dcode d \<Rightarrow>
                                  (Inr (Some (if dcode = 200 then d else result),
                                        Some (\<not> is_series)),
                                   Suc (Suc n))))
                      else (Inr (Some result, Some (\<not> is_series)), Suc n)))
          else (Inr best, Suc n))"

definition languages :: "string list" where
  "languages = [''es'', ''en'']"

text \<open>
  The loop over the languages with its handler: an exception with \<^verbatim>\<open>attempts > 1\<close>
  returns the result of a fresh call with one attempt less; otherwise it is logged and
  the loop goes on with the next language.
\<close>

function search_loop ::
  "tmdb \<Rightarrow> config \<Rightarrow> string \<Rightarrow> bool \<Rightarrow> int \<Rightarrow> string list \<Rightarrow> item option \<times> bool option \<Rightarrow> nat
     \<Rightarrow> (item option \<times> bool option) \<times> nat" where
  "search_loop svc cfg query is_series attempts [] best n = (best, n)"
| "search_loop svc cfg query is_series attempts (lang # langs) best n =
     (case search_lang svc cfg query is_series lang best n of
        (Inl e, n') \<Rightarrow>
          if attempts > 1
          then search_loop svc cfg query is_series (attempts - 1) languages (None, None) n'
          else search_loop svc cfg query is_series attempts langs best n'
      | (Inr best', n') \<Rightarrow> search_loop svc cfg query is_series attempts langs best' n')"
  by pat_completeness auto
termination
  by (relation "measures [\<lambda>(svc, cfg, query, is_series, attempts, langs, best, n). nat attempts,
                          \<lambda>(svc, cfg, query, is_series, attempts, langs, best, n). length langs]")
     auto

definition search_tmdb_multilang ::
  "tmdb \<Rightarrow> config \<Rightarrow> string \<Rightarrow> bool \<Rightarrow> int \<Rightarrow> nat \<Rightarrow> (item option \<times> bool option) \<times> nat" where
  "search_tmdb_multilang svc cfg query is_series attempts n =
     search_loop svc cfg query is_series attempts languages (None, None) n"

subsection \<open>\<^verbatim>\<open>tmdb_api.search_by_actors\<close>\<close>

text \<open>The first loop: the identifier of the first person found for each actor.\<close>

fun resolve_actor_ids :: "tmdb \<Rightarrow> string list \<Rightarrow> jval list \<Rightarrow> nat \<Rightarrow> (exn + jval list) \<times> nat" where
  "resolve_actor_ids svc [] actor_ids n = (Inr actor_ids, n)"
| "resolve_actor_ids svc (actor # actors) actor_ids n =
     (case person svc n actor of
        Raises msg \<Rightarrow> (Inl (Exn msg), Suc n)
      | Status code results \<Rightarrow>
          if code = 200 \<and> results \<noteq> [] then
            (case map_of (hd results) ''id'' of
               None \<Rightarrow> (Inl (Exn ''id''), Suc n)
             | Some i \<Rightarrow> resolve_actor_ids svc actors (actor_ids @ [i]) (Suc n))
          else resolve_actor_ids svc actors actor_ids (Suc n))"

text \<open>The second loop: the credit lists of the actors, one after the other.\<close>

fun collect_credits :: "tmdb \<Rightarrow> bool \<Rightarrow> jval list \<Rightarrow> item list \<Rightarrow> nat \<Rightarrow> (exn + item list) \<times> nat" where
  "collect_credits svc is_series [] all_results n = (Inr all_results, n)"
| "collect_credits svc is_series (actor_id # actor_ids) all_results n =
     (case credits svc n is_series actor_id of
        Raises msg \<Rightarrow> (Inl (Exn msg), Suc n)
      | Status code body \<Rightarrow>
          if code = 200 then
            (case body of
               Some cast \<Rightarrow> collect_credits svc is_series actor_ids (all_results @ cast) (Suc n)
             | None \<Rightarrow> collect_credits svc is_series actor_ids all_results (Suc n))
          else collect_credits svc is_series actor_ids all_results (Suc n))"

text \<open>
  \<^verbatim>\<open>collections.Counter\<close> as an association list in the order of first insertion, and
  \<^verbatim>\<open>id_to_info\<close> as a map that keeps the last item seen for an identifier.
\<close>

fun bump :: "jval \<Rightarrow> (jval \<times> nat) list \<Rightarrow> (jval \<times> nat) list" where
  "bump k [] = [(k, 1)]"
| "bump k ((k', c) # rest) = (if k = k' then (k', Suc c) # rest else (k', c) # bump k rest)"

fun count_ids :: "item list \<Rightarrow> (jval \<times> nat) list \<Rightarrow> (jval \<times> nat) list" where
  "count_ids [] counter = counter"
| "count_ids (it # its) counter =
     (case map_of it ''id'' of
        None \<Rightarrow> count_ids its counter
      | Some k \<Rightarrow> count_ids its (bump k counter))"

fun id_to_info :: "item list \<Rightarrow> (jval \<Rightarrow> item option) \<Rightarrow> (jval \<Rightarrow> item option)" where
  "id_to_info [] m = m"
| "id_to_info (it # its) m =
     (case map_of it ''id'' of
        None \<Rightarrow> id_to_info its m
      | Some k \<Rightarrow> id_to_info its (m(k \<mapsto> it)))"

text \<open>
  \<^verbatim>\<open>Counter.most_common()\<close>: the entries sorted by count, largest first; the sort is
  stable, so entries with equal counts keep the order of insertion.
\<close>

definition most_common :: "(jval \<times> nat) list \<Rightarrow> (jval \<times> nat) list" where
  "most_common counter = sort_key (\<lambda>(k, c). - int c) counter"

text \<open>The part of \<^verbatim>\<open>search_by_actors\<close> after the requests: counting and the threshold.\<close>

definition cross_reference :: "jval list \<Rightarrow> item list \<Rightarrow> bool \<Rightarrow> exn + item option \<times> bool option" where
  "cross_reference actor_ids all_results is_series =
     (case most_common (count_ids all_results []) of
        [] \<Rightarrow> Inr (None, None)
      | (best_id, frequency) # rest \<Rightarrow>
          (case id_to_info all_results Map.empty best_id of
             None \<Rightarrow> Inl (Exn ''KeyError'')
           | Some best_result \<Rightarrow>
               if min 2 (length actor_ids) \<le> frequency
               then Inr (Some best_result, Some (\<not> is_series))
               else Inr (None, None)))"

text \<open>The body of the \<^verbatim>\<open>try\<close> block, and the function with its handler.\<close>

definition search_by_actors_body ::
  "tmdb \<Rightarrow> string list \<Rightarrow> bool \<Rightarrow> nat \<Rightarrow> (exn + item option \<times> bool option) \<times> nat" where
  "search_by_actors_body svc actors is_series n =
     (case resolve_actor_ids svc actors [] n of
        (Inl e, n1) \<Rightarrow> (Inl e, n1)
      | (Inr actor_ids, n1) \<Rightarrow>
          if actor_ids = [] then (Inr (None, None), n1)
          else
            (case collect_credits svc is_series actor_ids [] n1 of
               (Inl e, n2) \<Rightarrow> (Inl e, n2)
             | (Inr all_results, n2) \<Rightarrow> (cross_reference actor_ids all_results is_series, n2)))"

definition search_by_actors ::
  "tmdb \<Rightarrow> string list \<Rightarrow> bool \<Rightarrow> nat \<Rightarrow> (item option \<times> bool option) \<times> nat" where
  "search_by_actors svc actors is_series n =
     (if actors = [] then ((None, None), n)
      else
        (case search_by_actors_body svc actors is_series n of
           (Inl e, n') \<Rightarrow> ((None, None), n')
         | (Inr r, n') \<Rightarrow> (r, n')))"

text \<open>The count a counter holds for a key, zero when the key is not in it.\<close>

definition lookup :: "(jval \<times> nat) list \<Rightarrow> jval \<Rightarrow> nat" where
  "lookup c k = (case map_of c k of None \<Rightarrow> 0 | Some n \<Rightarrow> n)"

text \<open>
  How often a title occurs in the credit lists taken together: the number of entries
  with its identifier.
\<close>

definition frequency_of :: "jval \<Rightarrow> item list \<Rightarrow> nat" where
  "frequency_of k all_results = length (filter (\<lambda>it. map_of it ''id'' = Some k) all_results)"

subsection \<open>String methods (\<^verbatim>\<open>split\<close>, \<^verbatim>\<open>strip\<close>, \<^verbatim>\<open>startswith\<close>, \<^verbatim>\<open>endswith\<close>, \<^verbatim>\<open>join\<close>)\<close>

definition nl :: char where
  "nl = CHR 0x0A"

text \<open>
  \<^verbatim>\<open>s.split(sep)\<close> for a separator that is not empty: the pieces between the occurrences
  of the separator, found from left to right; \<open>acc\<close> is the piece being read, reversed.
\<close>

fun split_str :: "string \<Rightarrow> string \<Rightarrow> string \<Rightarrow> string list" where
  "split_str sep acc [] = [rev acc]"
| "split_str sep acc (c # cs) =
     (if sep \<noteq> [] \<and> take (length sep) (c # cs) = sep
      then rev acc # split_str sep [] (drop (length sep - 1) cs)
      else split_str sep (c # acc) cs)"

definition py_split :: "string \<Rightarrow> string \<Rightarrow> string list" where
  "py_split s sep = split_str sep [] s"

text \<open>The characters \<^verbatim>\<open>str.strip()\<close> removes, among the code points below 256.\<close>

definition is_space :: "char \<Rightarrow> bool" where
  "is_space c =
     (c \<in> set [CHR 0x09, CHR 0x0A, CHR 0x0B, CHR 0x0C, CHR 0x0D, CHR 0x1C, CHR 0x1D, CHR 0x1E,
               CHR 0x1F, CHR 0x20, CHR 0x85, CHR 0xA0])"

definition strip :: "string \<Rightarrow> string" where
  "strip s = rev (dropWhile is_space (rev (dropWhile is_space s)))"

definition startswith :: "string \<Rightarrow> string \<Rightarrow> bool" where
  "startswith s p = (take (length p) s = p)"

definition endswith :: "string \<Rightarrow> string \<Rightarrow> bool" where
  "endswith s p = (drop (length s - length p) s = p)"

fun join :: "string \<Rightarrow> string list \<Rightarrow> string" where
  "join sep [] = []"
| "join sep [x] = x"
| "join sep (x # y # ys) = x @ sep @ join sep (y # ys)"

subsection \<open>\<^verbatim>\<open>process.process_single_video\<close>\<close>

text \<open>
  What the function reads from the machine, apart from the metadata service: the checks
  on the file, the creation of the temporary directory, the cleaned name
  (\<^verbatim>\<open>clean_filename(original_filename)\<close>), the dictionary of \<^verbatim>\<open>analyze_video_content\<close>, the
  listing of the temporary directory, and the two detectors, which catch their own
  exceptions and return a list of names for a list of frames.
\<close>

record video_env =
  file_ok :: bool
  original_filename :: string
  temp_dir :: string
  temp_dir_raises :: "string option"
  cleaned_name :: string
  content_quality :: string
  ocr_text :: string
  subtitles_text :: string
  listdir :: "exn + string list"
  studios_in_frames :: "string list \<Rightarrow> string list"
  actors_in_frames :: "string list \<Rightarrow> string list"

text \<open>
  A call of one of the two search functions, as the pipeline issues it. The state of the
  pipeline is the number of HTTP requests made and the calls issued so far, in order.
\<close>

datatype query = TextQuery string bool | ActorQuery "string list" bool

record pstate =
  clock :: nat
  asked :: "query list"

text \<open>\<^verbatim>\<open>result, is_movie = search_tmdb_multilang(text, config, is_series=...)\<close>.\<close>

definition search_text ::
  "tmdb \<Rightarrow> config \<Rightarrow> string \<Rightarrow> bool \<Rightarrow> pstate \<Rightarrow> (item option \<times> bool option) \<times> pstate" where
  "search_text svc cfg text is_series st =
     (let (r, n) = search_tmdb_multilang svc cfg text is_series 3 (clock st)
      in (r, \<lparr>clock = n, asked = asked st @ [TextQuery text is_series]\<rparr>))"

text \<open>\<^verbatim>\<open>result, is_movie = search_by_actors(detected_actors, config, is_series=...)\<close>.\<close>

definition search_actors ::
  "tmdb \<Rightarrow> string list \<Rightarrow> bool \<Rightarrow> pstate \<Rightarrow> (item option \<times> bool option) \<times> pstate" where
  "search_actors svc actors is_series st =
     (let (r, n) = search_by_actors svc actors is_series (clock st)
      in (r, \<lparr>clock = n, asked = asked st @ [ActorQuery actors is_series]\<rparr>))"

text \<open>A text tried as a movie and, when that gives nothing, as a series.\<close>

definition movie_then_series ::
  "tmdb \<Rightarrow> config \<Rightarrow> string \<Rightarrow> pstate \<Rightarrow> (item option \<times> bool option) \<times> pstate" where
  "movie_then_series svc cfg text st =
     (let (r, st1) = search_text svc cfg text False st
      in if truthy_dict (fst r) then (r, st1) else search_text svc cfg text True st1)"

text \<open>The lines of the OCR text that are longer than 15 characters once stripped.\<close>

definition ocr_fragments :: "string \<Rightarrow> string list" where
  "ocr_fragments text = filter (\<lambda>l. 15 < length l) (map strip (py_split text [nl]))"

text \<open>The loop over the fragments, with its two \<^verbatim>\<open>break\<close>s.\<close>

fun try_fragments ::
  "tmdb \<Rightarrow> config \<Rightarrow> string list \<Rightarrow> item option \<times> bool option \<Rightarrow> pstate
     \<Rightarrow> (item option \<times> bool option) \<times> pstate" where
  "try_fragments svc cfg [] r st = (r, st)"
| "try_fragments svc cfg (fragment # fragments) r st =
     (let (r', st') = movie_then_series svc cfg fragment st
      in if truthy_dict (fst r') then (r', st') else try_fragments svc cfg fragments r' st')"

text \<open>
  \<^verbatim>\<open>[l for l in block.split('\n') if not l.strip().startswith('-->')]\<close>: the lines of a
  subtitle block, without those that begin with an arrow.
\<close>

definition block_lines :: "string \<Rightarrow> string list" where
  "block_lines block = filter (\<lambda>l. \<not> startswith (strip l) ''-->'') (py_split block [nl])"

text \<open>The loop over the subtitle blocks: a block without lines is passed over.\<close>

fun try_blocks ::
  "tmdb \<Rightarrow> config \<Rightarrow> string list \<Rightarrow> item option \<times> bool option \<Rightarrow> pstate
     \<Rightarrow> (item option \<times> bool option) \<times> pstate" where
  "try_blocks svc cfg [] r st = (r, st)"
| "try_blocks svc cfg (block # blocks) r st =
     (let lines = block_lines block
      in if lines \<noteq> [] then
           (let (r', st') = movie_then_series svc cfg (join '' '' lines) st
            in if truthy_dict (fst r') then (r', st') else try_blocks svc cfg blocks r' st')
         else try_blocks svc cfg blocks r st)"

text \<open>Steps 3 to 5: the file name, the OCR text, the subtitles.\<close>

definition identify_by_text ::
  "video_env \<Rightarrow> tmdb \<Rightarrow> config \<Rightarrow> pstate \<Rightarrow> (item option \<times> bool option) \<times> pstate" where
  "identify_by_text env svc cfg st0 =
     (let (r1, st1) = movie_then_series svc cfg (cleaned_name env) st0;
          (r2, st2) =
            (if \<not> truthy_dict (fst r1) \<and> ocr_text env \<noteq> []
             then try_fragments svc cfg (take 5 (ocr_fragments (ocr_text env))) r1 st1
             else (r1, st1))
      in if \<not> truthy_dict (fst r2) \<and> subtitles_text env \<noteq> []
         then try_blocks svc cfg (take 5 (py_split (subtitles_text env) [nl, nl])) r2 st2
         else (r2, st2))"

text \<open>Step 6: the frames left in the temporary directory.\<close>

definition frame_files :: "video_env \<Rightarrow> config \<Rightarrow> exn + string list" where
  "frame_files env cfg =
     (if capture_frames cfg \<and> (detect_actors cfg \<or> detect_studios cfg) then
        (case listdir env of
           Inl e \<Rightarrow> Inl e
         | Inr names \<Rightarrow>
             Inr (map (path_join (temp_dir env))
                    (filter (\<lambda>f. startswith f ''frame_'' \<and> endswith f ''.png'') names)))
      else Inr [])"

text \<open>Step 9: the actors tried for a movie and, when that gives nothing, for a series.\<close>

definition identify_by_actors ::
  "tmdb \<Rightarrow> string list \<Rightarrow> item option \<times> bool option \<Rightarrow> pstate
     \<Rightarrow> (item option \<times> bool option) \<times> pstate" where
  "identify_by_actors svc actors r st =
     (if \<not> truthy_dict (fst r) \<and> actors \<noteq> [] then
        (let (r1, st1) = search_actors svc actors False st
         in if truthy_dict (fst r1) then (r1, st1) else search_actors svc actors True st1)
      else (r, st))"

text \<open>
  Step 10: the dictionary returned. For a result that is not a movie the season and the
  episode come from the file name, and a missing one is set to 1.
\<close>

definition prepare_result ::
  "video_env \<Rightarrow> item option \<times> bool option \<Rightarrow> string list \<Rightarrow> string list \<Rightarrow> exn + result_info" where
  "prepare_result env r studios actors =
     (case r of
        (None, is_movie) \<Rightarrow> Inr (Unidentified (content_quality env) studios actors)
      | (Some nfo, is_movie) \<Rightarrow>
          if nfo = [] then Inr (Unidentified (content_quality env) studios actors)
          else if is_movie \<noteq> Some True then
            (case extract_season_episode_from_filename (original_filename env) of
               Inl e \<Rightarrow> Inl e
             | Inr (seas, epis) \<Rightarrow>
                 Inr (Identified is_movie nfo (content_quality env)
                        (Some (case seas of None \<Rightarrow> 1 | Some s \<Rightarrow> s))
                        (Some (case epis of None \<Rightarrow> 1 | Some e \<Rightarrow> e))
                        studios actors))
          else Inr (Identified is_movie nfo (content_quality env) None None studios actors))"

text \<open>The body of the \<^verbatim>\<open>try\<close> block.\<close>

definition identify_body ::
  "video_env \<Rightarrow> tmdb \<Rightarrow> config \<Rightarrow> pstate \<Rightarrow> (exn + result_info) \<times> pstate" where
  "identify_body env svc cfg st0 =
     (let (r, st) = identify_by_text env svc cfg st0
      in case frame_files env cfg of
           Inl e \<Rightarrow> (Inl e, st)
         | Inr frames \<Rightarrow>
             (let studios = (if detect_studios cfg \<and> frames \<noteq> []
                             then studios_in_frames env frames else []);
                  actors = (if detect_actors cfg \<and> frames \<noteq> []
                            then actors_in_frames env frames else []);
                  (r', st') = identify_by_actors svc actors r st
              in (prepare_result env r' studios actors, st')))"

text \<open>
  The function: \<open>Inl\<close> is an exception that leaves it. The checks of the file and the
  creation of the temporary directory come before the \<^verbatim>\<open>try\<close>; an exception inside it is
  turned into a result with a message.
\<close>

definition process_single_video ::
  "video_env \<Rightarrow> tmdb \<Rightarrow> config \<Rightarrow> pstate \<Rightarrow> (exn + result_info) \<times> pstate" where
  "process_single_video env svc cfg st0 =
     (if \<not> file_ok env
      then (Inr (Failed (''Archivo inv'' @ [CHR 0xE1] @ ''lido o no existe'')), st0)
      else
        (case temp_dir_raises env of
           Some msg \<Rightarrow> (Inl (Exn msg), st0)
         | None \<Rightarrow>
             (case identify_body env svc cfg st0 of
                (Inl (Exn msg), st) \<Rightarrow> (Inr (Failed (''Error: '' @ msg)), st)
              | (Inr result, st) \<Rightarrow> (Inr result, st))))"

subsection \<open>The order of the sources, as the specification gives it\<close>

text \<open>A text is asked as a movie, then as a series.\<close>

definition both :: "string \<Rightarrow> query list" where
  "both text = [TextQuery text False, TextQuery text True]"

text \<open>The search texts of the first five subtitle blocks.\<close>

definition subtitle_texts :: "string \<Rightarrow> string list" where
  "subtitle_texts subs =
     map (join '' '') (filter (\<lambda>ls. ls \<noteq> []) (map block_lines (take 5 (py_split subs [nl, nl]))))"

text \<open>
  The plan: the cleaned name, at most five OCR fragments, at most five subtitle blocks,
  each as a movie and as a series, and then the actors, if any were recognised.
\<close>

definition plan :: "video_env \<Rightarrow> string list \<Rightarrow> query list" where
  "plan env actors =
     both (cleaned_name env)
     @ concat (map both (take 5 (ocr_fragments (ocr_text env))))
     @ (if subtitles_text env = [] then []
        else concat (map both (subtitle_texts (subtitles_text env))))
     @ (if actors = [] then [] else [ActorQuery actors False, ActorQuery actors True])"

fun run_query :: "tmdb \<Rightarrow> config \<Rightarrow> query \<Rightarrow> pstate \<Rightarrow> (item option \<times> bool option) \<times> pstate" where
  "run_query svc cfg (TextQuery text is_series) st = search_text svc cfg text is_series st"
| "run_query svc cfg (ActorQuery actors is_series) st = search_actors svc actors is_series st"

text \<open>The queries of a plan are run in order, and the first result that is accepted ends the run.\<close>

fun run_plan ::
  "tmdb \<Rightarrow> config \<Rightarrow> query list \<Rightarrow> item option \<times> bool option \<Rightarrow> pstate
     \<Rightarrow> (item option \<times> bool option) \<times> pstate" where
  "run_plan svc cfg [] r st = (r, st)"
| "run_plan svc cfg (q # qs) r st =
     (let (r', st') = run_query svc cfg q st
      in if truthy_dict (fst r') then (r', st') else run_plan svc cfg qs r' st')"

text \<open>The actors recognised in the frames, as step 8 computes them.\<close>

definition detected_actors_of :: "video_env \<Rightarrow> config \<Rightarrow> string list" where
  "detected_actors_of env cfg =
     (case frame_files env cfg of
        Inl e \<Rightarrow> []
      | Inr frames \<Rightarrow>
          if detect_actors cfg \<and> frames \<noteq> [] then actors_in_frames env frames else [])"

definition detected_studios_of :: "video_env \<Rightarrow> config \<Rightarrow> string list" where
  "detected_studios_of env cfg =
     (case frame_files env cfg of
        Inl e \<Rightarrow> []
      | Inr frames \<Rightarrow>
          if detect_studios cfg \<and> frames \<noteq> [] then studios_in_frames env frames else [])"

subsection \<open>The status column\<close>

text \<open>
  The set of statuses the specification lists for a backup row,
  \<^verbatim>\<open>{success, error_origin, error_move, error:<msg>, no_action}\<close>, and the set written in
  the sources.
\<close>

definition spec_status :: "string \<Rightarrow> bool" where
  "spec_status s =
     (s = ''success'' \<or> s = ''error_origin'' \<or> s = ''error_move'' \<or> s = ''no_action''
      \<or> take 6 s = ''error:'')"

definition written_status :: "string \<Rightarrow> bool" where
  "written_status s =
     (s = ''success'' \<or> s = ''error_origen'' \<or> s = ''error_mover'' \<or> s = ''no_action''
      \<or> take 7 s = ''error: '')"

subsection \<open>Concrete credit lists\<close>

text \<open>
  Two services that know three actors. In the first the title 10 is in the credit
  lists of two of them; in the second every title is in one list only.
\<close>

definition title_of :: "rat \<Rightarrow> item" where
  "title_of i = [(''id'', JNum i)]"

definition shared_cast :: tmdb where
  "shared_cast =
     \<lparr>search = (\<lambda>n s q l. Status 200 []),
      detail = (\<lambda>n s i. Status 404 []),
      person = (\<lambda>n name. Status 200
                  [[(''id'', if name = ''Ana'' then JNum 1 else if name = ''Ben'' then JNum 2
                            else JNum 3)]]),
      credits = (\<lambda>n s i. Status 200
                  (Some (if i = JNum 1 then [title_of 10, title_of 20]
                         else if i = JNum 2 then [title_of 10]
                         else [title_of 30])))\<rparr>"

definition solo_cast :: tmdb where
  "solo_cast =
     \<lparr>search = (\<lambda>n s q l. Status 200 []),
      detail = (\<lambda>n s i. Status 404 []),
      person = (\<lambda>n name. Status 200
                  [[(''id'', if name = ''Ana'' then JNum 1 else if name = ''Ben'' then JNum 2
                            else JNum 3)]]),
      credits = (\<lambda>n s i. Status 200
                  (Some (if i = JNum 1 then [title_of 10, title_of 20]
                         else if i = JNum 2 then [title_of 40]
                         else [title_of 30])))\<rparr>"

text \<open>A service in which the credits of the first actor list the title 10 twice.\<close>

definition double_credit :: tmdb where
  "double_credit =
     \<lparr>search = (\<lambda>n s q l. Status 200 []),
      detail = (\<lambda>n s i. Status 404 []),
      person = (\<lambda>n name. Status 200
                  [[(''id'', if name = ''Ana'' then JNum 1 else if name = ''Ben'' then JNum 2
                            else JNum 3)]]),
      credits = (\<lambda>n s i. Status 200
                  (Some (if i = JNum 1 then [title_of 10, title_of 10]
                         else if i = JNum 2 then [title_of 20]
                         else [title_of 30])))\<rparr>"

definition three_actors :: "string list" where
  "three_actors = [''Ana'', ''Ben'', ''Cleo'']"

subsection \<open>Concrete file systems and logs\<close>

text \<open>An environment in which no library call fails.\<close>

definition quiet_env :: os_env where
  "quiet_env = \<lparr>makedirs_raises = (\<lambda>_. None), move_raises = (\<lambda>_ _. None),
                 append_raises = (\<lambda>_. None), now = ''2024-01-01 00:00:00''\<rparr>"

text \<open>Three source files that are placed at the same destination, one after the other.\<close>

definition three_sources :: fs where
  "three_sources = [''in/a.mkv'' \<mapsto> ''A'', ''in/b.mkv'' \<mapsto> ''B'', ''in/c.mkv'' \<mapsto> ''C'']"

definition placed_three :: fs where
  "placed_three =
     (let f1 = snd (safe_move_file quiet_env three_sources ''in/a.mkv'' ''out/m.mkv'' True);
          f2 = snd (safe_move_file quiet_env f1 ''in/b.mkv'' ''out/m.mkv'' True)
      in snd (safe_move_file quiet_env f2 ''in/c.mkv'' ''out/m.mkv'' True))"

text \<open>
  A disk after two files were placed, with the log of a batch: the two moves, a row that
  failed, and a success row whose file is gone.
\<close>

definition placed_disk :: fs where
  "placed_disk = [''out/a.mkv'' \<mapsto> ''A'', ''out/b.mkv'' \<mapsto> ''B'']"

definition row_a :: backup_row where
  "row_a = \<lparr>nombre_original = ''a.mkv'', ruta_original = ''in/a.mkv'', nombre_nuevo = ''a.mkv'',
            ruta_nueva = ''out/a.mkv'', status = ''success'', timestamp = ''2024-01-01 00:00:00''\<rparr>"

definition row_b :: backup_row where
  "row_b = \<lparr>nombre_original = ''b.mkv'', ruta_original = ''in/b.mkv'', nombre_nuevo = ''b.mkv'',
            ruta_nueva = ''out/b.mkv'', status = ''success'', timestamp = ''2024-01-01 00:00:01''\<rparr>"

definition row_failed :: backup_row where
  "row_failed = \<lparr>nombre_original = ''c.mkv'', ruta_original = ''in/c.mkv'',
                 nombre_nuevo = ''a.mkv'', ruta_nueva = ''out/a.mkv'', status = ''error_mover'',
                 timestamp = ''2024-01-01 00:00:02''\<rparr>"

definition row_gone :: backup_row where
  "row_gone = \<lparr>nombre_original = ''d.mkv'', ruta_original = ''in/d.mkv'', nombre_nuevo = ''d.mkv'',
               ruta_nueva = ''out/d.mkv'', status = ''success'', timestamp = ''2024-01-01 00:00:03''\<rparr>"

definition start_state :: restore_state where
  "start_state = \<lparr>disk = placed_disk, restored = 0, errors = 0, moved = []\<rparr>"

text \<open>
  An environment in which every move is refused, a movie whose title is \<^verbatim>\<open>null\<close>, and a
  file that was not identified, with a studio detected.
\<close>

definition denied_env :: os_env where
  "denied_env = quiet_env\<lparr>move_raises := (\<lambda>_ _. Some ''Permission denied'')\<rparr>"

definition untitled_movie :: result_info where
  "untitled_movie = Identified (Some True) [(''id'', JNum 7), (''title'', JNull)] ''720p'' None None [] []"

definition hbo_file :: result_info where
  "hbo_file = Unidentified ''720p'' [''HBO''] []"

section \<open>Properties\<close>

subsection \<open>Helper facts\<close>

lemmas path_defs =
  dirname_def head_part_def basename_def splitext_def duplicate_name_def path_join_def

lemmas os_defs = path_exists_def makedirs_def shutil_move_def quiet_env_def

lemma stamped_status [simp]: "status (stamped env row) = status row"
  by (simp add: stamped_def)

lemma new_row_status [simp]: "status (new_row a b c d s) = s"
  by (simp add: new_row_def)

lemma append_to_backup_cases:
  "snd (append_to_backup env bklog row) = bklog
   \<or> snd (append_to_backup env bklog row) = bklog @ [stamped env row]"
  by (simp add: append_to_backup_def split: option.splits)

lemma restore_row_skip:
  "status row \<noteq> ''success'' \<or> \<not> path_exists (disk st) (ruta_nueva row)
   \<Longrightarrow> restore_row env row st = Inr st"
  by (auto simp: restore_row_def)

lemma restore_row_changed:
  "restore_row env row st = Inr st' \<Longrightarrow> st' \<noteq> st
   \<Longrightarrow> status row = ''success'' \<and> path_exists (disk st) (ruta_nueva row)"
  by (auto simp: restore_row_def split: if_splits)

lemma restore_row_moved:
  "restore_row env row st = Inr st'
   \<Longrightarrow> moved st' = moved st
       \<or> (moved st' = moved st @ [row] \<and> status row = ''success''
          \<and> path_exists (disk st) (ruta_nueva row))"
  by (auto simp: restore_row_def split: if_splits sum.splits)

text \<open>
  The rows handed to \<^verbatim>\<open>shutil.move\<close> are a subsequence of the log, in the order of the
  log, and each of them is a success row.
\<close>

lemma restore_rows_moved:
  "\<exists>ys. moved (restore_rows env rows st) = moved st @ ys \<and> subseq ys rows
        \<and> (\<forall>r \<in> set ys. status r = ''success'')"
proof (induction rows arbitrary: st)
  case Nil
  then show ?case by simp
next
  case (Cons row rows)
  show ?case
  proof (cases "restore_row env row st")
    case (Inl e)
    then show ?thesis by simp
  next
    case (Inr st')
    from Cons.IH[of st'] obtain ys where ys:
      "moved (restore_rows env rows st') = moved st' @ ys" "subseq ys rows"
      "\<forall>r \<in> set ys. status r = ''success''"
      by blast
    from restore_row_moved[OF Inr] show ?thesis
    proof
      assume "moved st' = moved st"
      with ys Inr show ?thesis by (auto intro!: exI[of _ ys])
    next
      assume "moved st' = moved st @ [row] \<and> status row = ''success''
              \<and> path_exists (disk st) (ruta_nueva row)"
      with ys Inr show ?thesis by (auto intro!: exI[of _ "row # ys"])
    qed
  qed
qed

lemma shutil_move_keeps:
  "shutil_move env files src dst = Inr files' \<Longrightarrow> p \<noteq> src \<Longrightarrow> path_exists files p
   \<Longrightarrow> path_exists files' p"
  by (auto simp: shutil_move_def path_exists_def split: option.splits if_splits)

lemma restore_row_eligible:
  assumes "status row = ''success''" "path_exists (disk st) (ruta_nueva row)"
    "makedirs env (dirname (ruta_original row)) = Inr ()"
  shows "\<exists>st'. restore_row env row st = Inr st' \<and> moved st' = moved st @ [row]
           \<and> restored st' + errors st' = restored st + errors st + 1
           \<and> (\<forall>p. p \<noteq> ruta_nueva row \<longrightarrow> path_exists (disk st) p
                    \<longrightarrow> path_exists (disk st') p)"
proof (cases "shutil_move env (disk st) (ruta_nueva row) (ruta_original row)")
  case (Inl e)
  with assms show ?thesis by (simp add: restore_row_def)
next
  case (Inr files')
  with assms shutil_move_keeps[OF Inr] show ?thesis by (simp add: restore_row_def)
qed

lemma restore_rows_success_rows:
  assumes "\<forall>r \<in> set rows. status r = ''success''
             \<longrightarrow> path_exists (disk st) (ruta_nueva r)
                 \<and> makedirs env (dirname (ruta_original r)) = Inr ()"
    and "distinct (map ruta_nueva (filter (\<lambda>r. status r = ''success'') rows))"
  shows "moved (restore_rows env rows st) = moved st @ filter (\<lambda>r. status r = ''success'') rows
         \<and> restored (restore_rows env rows st) + errors (restore_rows env rows st)
           = restored st + errors st + length (filter (\<lambda>r. status r = ''success'') rows)"
  using assms
proof (induction rows arbitrary: st)
  case Nil
  then show ?case by simp
next
  case (Cons row rows)
  show ?case
  proof (cases "status row = ''success''")
    case False
    then have "restore_row env row st = Inr st" by (simp add: restore_row_skip)
    with False Cons show ?thesis by simp
  next
    case True
    with Cons.prems(1) have e: "path_exists (disk st) (ruta_nueva row)"
      "makedirs env (dirname (ruta_original row)) = Inr ()" by auto
    from Cons.prems(2) True have d: "distinct (map ruta_nueva (filter (\<lambda>r. status r = ''success'') rows))"
      and nin: "\<forall>r \<in> set rows. status r = ''success'' \<longrightarrow> ruta_nueva r \<noteq> ruta_nueva row"
      by (auto simp: image_iff)
    from restore_row_eligible[OF True e]
    obtain st' where s: "restore_row env row st = Inr st'"
      and m: "moved st' = moved st @ [row]"
      and c: "restored st' + errors st' = restored st + errors st + 1"
      and k: "\<forall>p. p \<noteq> ruta_nueva row \<longrightarrow> path_exists (disk st) p \<longrightarrow> path_exists (disk st') p"
      by blast
    have "\<forall>r \<in> set rows. status r = ''success''
             \<longrightarrow> path_exists (disk st') (ruta_nueva r)
                 \<and> makedirs env (dirname (ruta_original r)) = Inr ()"
      using Cons.prems(1) nin k by auto
    from Cons.IH[OF this d] s m c True show ?thesis by simp
  qed
qed

lemma restore_rows_none_eligible:
  "\<forall>r \<in> set rows. status r \<noteq> ''success'' \<or> \<not> path_exists (disk st) (ruta_nueva r)
   \<Longrightarrow> restore_rows env rows st = st"
  by (induction rows) (auto simp: restore_row_skip)

lemma process_file_operation_status:
  "written_status (status (fst (process_file_operation env fsys bklog src result out)))"
  by (auto simp: process_file_operation_def written_status_def Let_def
           split: sum.splits exn.splits prod.splits)

lemma append_to_backup_ok:
  "append_raises env (length bklog) = None
   \<Longrightarrow> snd (append_to_backup env bklog row) = bklog @ [stamped env row]"
  by (simp add: append_to_backup_def)

lemma process_file_operation_missing:
  "\<not> path_exists fsys src \<Longrightarrow>
   process_file_operation env fsys bklog src result out
   = (stamped env (new_row (basename src) src [] [] ''error_origen''), fsys,
      snd (append_to_backup env bklog (new_row (basename src) src [] [] ''error_origen'')))"
  by (simp add: process_file_operation_def Let_def)

lemma process_file_operation_raises:
  "path_exists fsys src \<Longrightarrow>
   destination result out (basename src) (lower (snd (splitext (basename src)))) = Inl (Exn msg) \<Longrightarrow>
   process_file_operation env fsys bklog src result out
   = (stamped env (new_row (basename src) src [] [] (''error: '' @ msg)), fsys,
      snd (append_to_backup env bklog (new_row (basename src) src [] [] (''error: '' @ msg))))"
  by (simp add: process_file_operation_def Let_def)

lemma process_file_operation_moves:
  "path_exists fsys src \<Longrightarrow>
   destination result out (basename src) (lower (snd (splitext (basename src)))) = Inr (d, f) \<Longrightarrow>
   process_file_operation env fsys bklog src result out
   = (stamped env (new_row (basename src) src (basename f) f
         (if fst (safe_move_file env fsys src f True) then ''success'' else ''error_mover'')),
      snd (safe_move_file env fsys src f True),
      snd (append_to_backup env bklog (new_row (basename src) src (basename f) f
         (if fst (safe_move_file env fsys src f True) then ''success'' else ''error_mover''))))"
  by (simp add: process_file_operation_def Let_def split: prod.splits)

subsection \<open>Regular expressions\<close>


text \<open>The equation for a piece is unfolded by hand, through the lemmas below.\<close>

declare match_here.simps(2) [simp del]

lemma first_match_None_iff: "first_match f ks = None \<longleftrightarrow> (\<forall>k \<in> set ks. f k = None)"
  by (induction ks) (auto split: option.splits)

lemma first_match_Some: "first_match f ks = Some r \<Longrightarrow> \<exists>k \<in> set ks. f k = Some r"
  by (induction ks) (auto split: option.splits)

lemma first_match_rev_upt:
  "lo \<le> k \<Longrightarrow> f k = Some r \<Longrightarrow> first_match f (rev [lo ..< Suc k]) = Some r"
  by simp

lemma match_here_greedy:
  assumes "lo \<le> reach cls hi s" and "match_here ps (drop (reach cls hi s) s) = Some gs"
  shows "match_here (Piece cls lo hi cap # ps) s
         = Some (if cap then take (reach cls hi s) s # gs else gs)"
  unfolding match_here.simps using assms by (intro first_match_rev_upt) auto

lemma match_here_sound:
  assumes "match_here (Piece cls lo hi cap # ps) s = Some gs"
  shows "\<exists>k gs'. lo \<le> k \<and> k \<le> reach cls hi s \<and> match_here ps (drop k s) = Some gs'
                 \<and> gs = (if cap then take k s # gs' else gs')"
proof -
  from assms[unfolded match_here.simps] first_match_Some
  obtain k where k: "k \<in> set (rev [lo ..< Suc (reach cls hi s)])"
    "(case match_here ps (drop k s) of None \<Rightarrow> None
      | Some gs \<Rightarrow> Some (if cap then take k s # gs else gs)) = Some gs"
    by meson
  then show ?thesis by (auto split: option.splits)
qed

lemma reach_le_takeWhile: "reach cls hi s \<le> length (takeWhile (class_matches cls) s)"
  by (simp add: reach_def Let_def split: option.splits)

lemma take_le_takeWhile:
  assumes "k \<le> length (takeWhile P s)"
  shows "k \<le> length s \<and> (\<forall>c \<in> set (take k s). P c)"
proof -
  have "length (takeWhile P s) \<le> length s" by (rule length_takeWhile_le)
  with assms have k1: "k \<le> length s" by simp
  have "take k (takeWhile P s @ dropWhile P s) = take k (takeWhile P s)"
    using assms by (simp del: takeWhile_dropWhile_id)
  then have "take k s = take k (takeWhile P s)" by simp
  then have "set (take k s) \<subseteq> set (takeWhile P s)" by (metis set_take_subset)
  then show ?thesis using k1 by (auto dest: set_takeWhileD)
qed

lemma take_reach_all:
  "k \<le> reach cls hi s \<Longrightarrow> k \<le> length s \<and> (\<forall>c \<in> set (take k s). class_matches cls c)"
  using take_le_takeWhile[of k "class_matches cls" s] reach_le_takeWhile[of cls hi s] by simp

lemma takeWhile_run:
  "list_all P ds \<Longrightarrow> rest = [] \<or> \<not> P (hd rest) \<Longrightarrow> takeWhile P (ds @ rest) = ds"
  by (induction ds) (cases rest; auto)+

lemma match_lit:
  "match_here (Piece (Lit l) (Suc 0) (Some (Suc 0)) False # ps) s =
     (case s of [] \<Rightarrow> None
      | c # cs \<Rightarrow> if lower_char c = lower_char l then match_here ps cs else None)"
  by (cases s) (auto simp: match_here.simps reach_def split: option.splits)

lemma match_digits_run:
  assumes "ds \<noteq> []" "list_all is_digit ds" "rest = [] \<or> \<not> is_digit (hd rest)"
    "match_here ps rest = Some gs"
  shows "match_here (digits1 # ps) (ds @ rest) = Some (ds # gs)"
proof -
  have r: "reach Digit None (ds @ rest) = length ds"
    using takeWhile_run[of is_digit ds rest] assms
    by (simp add: reach_def Let_def cong: takeWhile_cong) 
  show ?thesis
    unfolding digits1_def
    using match_here_greedy[of 1 Digit None "ds @ rest" ps gs True] assms r
    by (cases ds) auto
qed

lemma match_digits_sound:
  assumes "match_here (digits1 # ps) s = Some gs"
  shows "\<exists>ds rest gs'. s = ds @ rest \<and> ds \<noteq> [] \<and> list_all is_digit ds
                       \<and> match_here ps rest = Some gs' \<and> gs = ds # gs'"
proof -
  from match_here_sound[OF assms[unfolded digits1_def]]
  obtain k gs' where k: "1 \<le> k" "k \<le> reach Digit None s" "match_here ps (drop k s) = Some gs'"
    "gs = take k s # gs'" by auto
  from take_reach_all[OF k(2)] have "k \<le> length s" "\<forall>c \<in> set (take k s). is_digit c" by auto
  with k show ?thesis
    by (intro exI[of _ "take k s"] exI[of _ "drop k s"] exI[of _ gs'])
       (auto simp: list_all_iff)
qed

lemma lower_char_S: "lower_char c = lower_char (CHR ''S'') \<longleftrightarrow> c \<in> {CHR ''S'', CHR ''s''}"
  by (simp add: lower_char_def)

lemma lower_char_E: "lower_char c = lower_char (CHR ''E'') \<longleftrightarrow> c \<in> {CHR ''E'', CHR ''e''}"
  by (simp add: lower_char_def)


lemma letters_not_digits:
  "c \<in> {CHR ''S'', CHR ''s'', CHR ''E'', CHR ''e'', CHR ''x'', CHR ''X''} \<Longrightarrow> \<not> is_digit c"
  by (auto simp: is_digit_def)

lemma match_SxxEyy:
  assumes "s \<in> {CHR ''S'', CHR ''s''}" "e \<in> {CHR ''E'', CHR ''e''}"
    "ds1 \<noteq> []" "ds2 \<noteq> []" "list_all is_digit ds1" "list_all is_digit ds2"
    "post = [] \<or> \<not> is_digit (hd post)"
  shows "match_here pattern_SxxEyy (s # ds1 @ e # ds2 @ post) = Some [ds1, ds2]"
proof -
  have a: "match_here [digits1] (ds2 @ post) = Some [ds2]"
    using match_digits_run[of ds2 post "[]" "[]"] assms by simp
  have b: "match_here (Piece (Lit (CHR ''E'')) (Suc 0) (Some (Suc 0)) False # [digits1]) (e # ds2 @ post) = Some [ds2]"
    using a assms(2) by (simp add: match_lit lower_char_E)
  have c: "match_here (digits1 # Piece (Lit (CHR ''E'')) (Suc 0) (Some (Suc 0)) False # [digits1]) (ds1 @ e # ds2 @ post) = Some [ds1, ds2]"
    using match_digits_run[OF assms(3) assms(5) _ b] letters_not_digits[of e] assms(2) by auto
  show ?thesis
    using c assms(1) by (simp add: pattern_SxxEyy_def lits_def match_lit lower_char_S)
qed

lemma match_SxxEyy_sound:
  assumes "match_here pattern_SxxEyy t = Some gs"
  shows "starts_SxxEyy t"
proof -
  from assms obtain s r where t: "t = s # r" and s: "s \<in> {CHR ''S'', CHR ''s''}"
    and m1: "match_here (digits1 # Piece (Lit (CHR ''E'')) (Suc 0) (Some (Suc 0)) False # [digits1]) r = Some gs"
    by (auto simp: pattern_SxxEyy_def lits_def match_lit lower_char_S split: list.splits if_splits)
  from match_digits_sound[OF m1] obtain ds1 rest gs1 where r: "r = ds1 @ rest" "ds1 \<noteq> []"
    "list_all is_digit ds1"
    and m2: "match_here (Piece (Lit (CHR ''E'')) (Suc 0) (Some (Suc 0)) False # [digits1]) rest = Some gs1"
    by blast
  from m2 obtain e r2 where rest: "rest = e # r2" and e: "e \<in> {CHR ''E'', CHR ''e''}"
    and m3: "match_here (digits1 # []) r2 = Some gs1"
    by (auto simp: match_lit lower_char_E split: list.splits if_splits)
  from match_digits_sound[OF m3] obtain ds2 post where r2: "r2 = ds2 @ post" "ds2 \<noteq> []"
    "list_all is_digit ds2"
    by blast
  show ?thesis
    unfolding starts_SxxEyy_def using t s r rest e r2 by blast
qed

lemma run_split:
  assumes "list_all P ds"
  shows "ds @ post = (ds @ takeWhile P post) @ dropWhile P post
   \<and> list_all P (ds @ takeWhile P post)
   \<and> (dropWhile P post = [] \<or> \<not> P (hd (dropWhile P post)))"
proof -
  have "list_all P (takeWhile P post)" by (auto simp: list_all_iff dest: set_takeWhileD)
  moreover have "dropWhile P post = [] \<or> \<not> P (hd (dropWhile P post))"
    using hd_dropWhile[of P post] by blast
  ultimately show ?thesis using assms by simp
qed

lemma starts_SxxEyy_iff: "starts_SxxEyy t \<longleftrightarrow> match_here pattern_SxxEyy t \<noteq> None"
proof
  assume "starts_SxxEyy t"
  then obtain s ds1 e ds2 post where t: "t = s # ds1 @ e # ds2 @ post"
    and c: "s \<in> {CHR ''S'', CHR ''s''}" "e \<in> {CHR ''E'', CHR ''e''}" "ds1 \<noteq> []" "ds2 \<noteq> []"
      "list_all is_digit ds1" "list_all is_digit ds2"
    unfolding starts_SxxEyy_def by blast
  define ds2' where "ds2' = ds2 @ takeWhile is_digit post"
  define post' where "post' = dropWhile is_digit post"
  from run_split[OF c(6), of post] have sp: "list_all is_digit ds2'"
    "post' = [] \<or> \<not> is_digit (hd post')"
    unfolding ds2'_def post'_def by blast+
  have ne: "ds2' \<noteq> []" using c(4) by (simp add: ds2'_def)
  have "match_here pattern_SxxEyy (s # ds1 @ e # ds2' @ post') = Some [ds1, ds2']"
    by (rule match_SxxEyy[OF c(1) c(2) c(3) ne c(5) sp(1) sp(2)])
  moreover have "t = s # ds1 @ e # ds2' @ post'" using t by (simp add: ds2'_def post'_def)
  ultimately show "match_here pattern_SxxEyy t \<noteq> None" by simp
next
  assume "match_here pattern_SxxEyy t \<noteq> None"
  then show "starts_SxxEyy t" using match_SxxEyy_sound by blast
qed







lemma match_here_groups:
  "match_here ps s = Some gs \<Longrightarrow> length gs = length (filter is_group ps)"
proof (induction ps arbitrary: s gs)
  case Nil
  then show ?case by simp
next
  case (Cons p ps)
  obtain cls lo hi cap where p: "p = Piece cls lo hi cap" by (cases p)
  from match_here_sound[OF Cons.prems[unfolded p]] obtain k gs' where
    "match_here ps (drop k s) = Some gs'" "gs = (if cap then take k s # gs' else gs')" by blast
  with Cons.IH[of "drop k s" gs'] p show ?case by simp
qed

lemma re_search_groups:
  "re_search ps s = Some gs \<Longrightarrow> length gs = length (filter is_group ps)"
  by (induction s) (auto split: option.splits dest: match_here_groups)

lemma patterns_two_groups: "\<forall>p \<in> set patterns. length (filter is_group p) = 2"
  by (simp add: patterns_def pattern_SxxEyy_def pattern_NxNN_def lits_def digits1_def
        nondigits0_def nondigit_def)

lemma length_two: "length gs = 2 \<Longrightarrow> \<exists>a b. gs = [a, b]"
  by (cases gs; cases "tl gs") auto

lemma first_pattern_shape:
  "\<forall>p \<in> set ps. length (filter is_group p) = 2 \<Longrightarrow>
   first_pattern ps f = Inr (None, None) \<or> (\<exists>a b. first_pattern ps f = Inr (Some a, Some b))"
proof (induction ps)
  case Nil
  then show ?case by simp
next
  case (Cons p ps)
  show ?case
  proof (cases "re_search p f")
    case None
    with Cons show ?thesis by simp
  next
    case (Some gs)
    from re_search_groups[OF Some] Cons.prems have "length gs = 2" by simp
    from length_two[OF this] obtain a b where "gs = [a, b]" by blast
    with Some show ?thesis by simp
  qed
qed

lemma extract_shape:
  "extract_season_episode_from_filename f = Inr (None, None)
   \<or> (\<exists>a b. extract_season_episode_from_filename f = Inr (Some a, Some b))"
  unfolding extract_season_episode_from_filename_def
  using first_pattern_shape[OF patterns_two_groups] .

lemma no_start_match:
  "(\<forall>j < n. \<not> starts_SxxEyy (drop j f)) \<Longrightarrow> \<forall>j < n. match_here pattern_SxxEyy (drop j f) = None"
  using starts_SxxEyy_iff by blast

declare re_search.simps [simp del] first_pattern.simps [simp del]


subsection \<open>Season and episode: \<^verbatim>\<open>extract_season_episode_from_filename\<close>\<close>



subsection \<open>Actor cross-reference: \<^verbatim>\<open>search_by_actors\<close>\<close>

lemma bump_keys: "set (map fst (bump k c)) = insert k (set (map fst c))"
proof (induction c)
  case Nil
  then show ?case by simp
next
  case (Cons a c)
  obtain k' n where a: "a = (k', n)" by (cases a)
  show ?case
  proof (cases "k = k'")
    case True
    then show ?thesis using a by simp
  next
    case False
    then show ?thesis using a Cons by (simp add: insert_commute)
  qed
qed

lemma bump_distinct: "distinct (map fst c) \<Longrightarrow> distinct (map fst (bump k c))"
proof (induction c)
  case Nil
  then show ?case by simp
next
  case (Cons a c)
  obtain k' n where a: "a = (k', n)" by (cases a)
  have "set (map fst (bump k c)) = insert k (set (map fst c))" by (rule bump_keys)
  with Cons a show ?case by auto
qed

lemma bump_lookup:
  "lookup (bump k c) k' = (if k' = k then Suc (lookup c k) else lookup c k')"
  by (induction c) (auto simp: lookup_def)

lemma bump_positive: "\<forall>(k, n) \<in> set c. 0 < n \<Longrightarrow> \<forall>(k, n) \<in> set (bump j c). 0 < n"
  by (induction c) (auto split: if_splits)

lemma frequency_of_Cons:
  "frequency_of k (it # its) = (if map_of it ''id'' = Some k then 1 else 0) + frequency_of k its"
  by (simp add: frequency_of_def)

lemma count_ids_lookup:
  "lookup (count_ids rs c) k = lookup c k + frequency_of k rs"
proof (induction rs arbitrary: c)
  case Nil
  then show ?case by (simp add: frequency_of_def)
next
  case (Cons it its)
  show ?case
  proof (cases "map_of it ''id''")
    case None
    then show ?thesis using Cons[of c] by (simp add: frequency_of_Cons)
  next
    case (Some j)
    then show ?thesis using Cons[of "bump j c"] by (simp add: frequency_of_Cons bump_lookup)
  qed
qed

lemma count_ids_distinct: "distinct (map fst c) \<Longrightarrow> distinct (map fst (count_ids rs c))"
  by (induction rs arbitrary: c) (auto split: option.splits intro: bump_distinct)

lemma count_ids_positive:
  "\<forall>(k, n) \<in> set c. 0 < n \<Longrightarrow> \<forall>(k, n) \<in> set (count_ids rs c). 0 < n"
proof (induction rs arbitrary: c)
  case Nil
  then show ?case by simp
next
  case (Cons it its)
  show ?case
  proof (cases "map_of it ''id''")
    case None
    then show ?thesis using Cons by simp
  next
    case (Some j)
    from bump_positive[OF Cons.prems, of j] Cons.IH[of "bump j c"] Some show ?thesis by simp
  qed
qed

lemma lookup_member:
  "distinct (map fst c) \<Longrightarrow> (k, n) \<in> set c \<Longrightarrow> lookup c k = n"
  by (simp add: lookup_def)

lemma lookup_positive_member:
  "0 < lookup c k \<Longrightarrow> (k, lookup c k) \<in> set c"
  by (auto simp: lookup_def split: option.splits dest: map_of_SomeD)

text \<open>The counter holds, for every identifier that occurs, the number of its entries.\<close>

lemma counter_entries:
  "(k, n) \<in> set (count_ids rs []) \<longleftrightarrow> n = frequency_of k rs \<and> 0 < n"
proof
  assume m: "(k, n) \<in> set (count_ids rs [])"
  have d: "distinct (map fst (count_ids rs []))" by (rule count_ids_distinct) simp
  from lookup_member[OF d m] count_ids_lookup[of rs "[]" k]
  have "n = frequency_of k rs" by (simp add: lookup_def)
  moreover from count_ids_positive[of "[]" rs] m have "0 < n" by auto
  ultimately show "n = frequency_of k rs \<and> 0 < n" by simp
next
  assume a: "n = frequency_of k rs \<and> 0 < n"
  with count_ids_lookup[of rs "[]" k] have "lookup (count_ids rs []) k = n" "0 < n"
    by (simp_all add: lookup_def)
  with lookup_positive_member[of "count_ids rs []" k] show "(k, n) \<in> set (count_ids rs [])"
    by simp
qed

lemma most_common_set: "set (most_common c) = set c"
  by (simp add: most_common_def)

lemma most_common_head:
  assumes "most_common c = (k, n) # rest"
  shows "(k, n) \<in> set c \<and> (\<forall>(k', n') \<in> set c. n' \<le> n)"
proof -
  let ?f = "\<lambda>(k, c). - int c"
  from assms have s: "sorted (map ?f ((k, n) # rest))"
    using sorted_sort_key[of ?f c] by (simp add: most_common_def)
  from assms most_common_set[of c] have m: "set c = insert (k, n) (set rest)" by simp
  have "\<forall>(k', n') \<in> set c. n' \<le> n"
  proof (clarify)
    fix k' n' assume "(k', n') \<in> set c"
    with m have "(k', n') = (k, n) \<or> (k', n') \<in> set rest" by auto
    then show "n' \<le> n"
    proof
      assume "(k', n') = (k, n)" then show ?thesis by simp
    next
      assume "(k', n') \<in> set rest"
      with s have "?f (k, n) \<le> ?f (k', n')" by auto
      then show ?thesis by simp
    qed
  qed
  with m show ?thesis by simp
qed

lemma id_to_info_found:
  "0 < frequency_of k rs \<Longrightarrow>
   \<exists>it. id_to_info rs m k = Some it \<and> it \<in> set rs \<and> map_of it ''id'' = Some k"
proof (induction rs arbitrary: m)
  case Nil
  then show ?case by (simp add: frequency_of_def)
next
  case (Cons a rs)
  have keep: "\<And>m it. m k = Some it \<Longrightarrow> frequency_of k rs = 0 \<Longrightarrow> id_to_info rs m k = Some it"
  proof -
    fix m :: "jval \<Rightarrow> item option" and it
    show "m k = Some it \<Longrightarrow> frequency_of k rs = 0 \<Longrightarrow> id_to_info rs m k = Some it"
    proof (induction rs arbitrary: m)
      case Nil
      then show ?case by simp
    next
      case (Cons b rs)
      then show ?case by (auto simp: frequency_of_Cons split: option.splits if_splits)
    qed
  qed
  show ?case
  proof (cases "0 < frequency_of k rs")
    case True
    show ?thesis
    proof (cases "map_of a ''id''")
      case None
      from Cons.IH[OF True, of m] obtain it where
        "id_to_info rs m k = Some it" "it \<in> set rs" "map_of it ''id'' = Some k"
        by blast
      with None show ?thesis by simp
    next
      case (Some j)
      from Cons.IH[OF True, of "m(j \<mapsto> a)"] obtain it where
        "id_to_info rs (m(j \<mapsto> a)) k = Some it" "it \<in> set rs" "map_of it ''id'' = Some k"
        by blast
      with Some show ?thesis by simp
    qed
  next
    case False
    with Cons.prems have a: "map_of a ''id'' = Some k" "frequency_of k rs = 0"
      by (auto simp: frequency_of_Cons split: if_splits)
    from keep[of "m(k \<mapsto> a)" a] a show ?thesis by simp
  qed
qed

lemma cross_reference_cases:
  "(count_ids rs [] = [] \<and> cross_reference ids rs s = Inr (None, None) \<and> (\<forall>k. frequency_of k rs = 0))
   \<or> (\<exists>k r. 0 < frequency_of k rs \<and> (\<forall>k'. frequency_of k' rs \<le> frequency_of k rs)
          \<and> r \<in> set rs \<and> map_of r ''id'' = Some k
          \<and> cross_reference ids rs s
             = (if min 2 (length ids) \<le> frequency_of k rs then Inr (Some r, Some (\<not> s))
                else Inr (None, None)))"
proof (cases "most_common (count_ids rs [])")
  case Nil
  then have e: "count_ids rs [] = []" using most_common_set[of "count_ids rs []"] by simp
  have "\<forall>k. frequency_of k rs = 0"
  proof
    fix k
    from counter_entries[of k "frequency_of k rs" rs] e show "frequency_of k rs = 0" by auto
  qed
  with Nil e show ?thesis by (simp add: cross_reference_def)
next
  case (Cons a rest)
  obtain k n where a: "a = (k, n)" by (cases a)
  from most_common_head[OF Cons[unfolded a]]
  have h: "(k, n) \<in> set (count_ids rs [])" "\<forall>(k', n') \<in> set (count_ids rs []). n' \<le> n"
    by auto
  from h(1) counter_entries[of k n rs] have n: "n = frequency_of k rs" "0 < n" by auto
  have mx: "\<forall>k'. frequency_of k' rs \<le> frequency_of k rs"
  proof
    fix k'
    show "frequency_of k' rs \<le> frequency_of k rs"
    proof (cases "0 < frequency_of k' rs")
      case True
      with counter_entries[of k' "frequency_of k' rs" rs]
      have "(k', frequency_of k' rs) \<in> set (count_ids rs [])" by simp
      with h(2) n show ?thesis by auto
    next
      case False
      then show ?thesis by simp
    qed
  qed
  from n id_to_info_found[of k rs Map.empty] obtain r where
    r: "id_to_info rs Map.empty k = Some r" "r \<in> set rs" "map_of r ''id'' = Some k" by auto
  have "cross_reference ids rs s
        = (if min 2 (length ids) \<le> frequency_of k rs then Inr (Some r, Some (\<not> s))
           else Inr (None, None))"
    using Cons a r n by (simp add: cross_reference_def)
  with n mx r show ?thesis by blast
qed

lemma search_by_actors_resolved:
  assumes "actors \<noteq> []" "resolve_actor_ids svc actors [] n = (Inr ids, n1)" "ids \<noteq> []"
    "collect_credits svc s ids [] n1 = (Inr rs, n2)"
  shows "(cross_reference ids rs s = Inr r \<longrightarrow> search_by_actors svc actors s n = (r, n2))
         \<and> (\<exists>r. cross_reference ids rs s = Inr r)"
  using assms cross_reference_cases[of rs ids s]
  by (auto simp: search_by_actors_def search_by_actors_body_def split: if_splits)

text \<open>
  The threshold in terms of credit entries. For a non-empty list of recognised actors
  whose identifiers were resolved (\<open>actor_ids\<close>) and whose credit lists were fetched
  (\<open>all_results\<close>, the lists one after the other), a returned title is a most frequent
  one and its frequency is at least \<open>min 2 (length actor_ids)\<close>; a title is returned if and
  only if some title reaches that frequency. The frequency of a title is the number of
  credit entries that carry its identifier.
\<close>

lemma cross_reference_threshold:
  assumes "actors \<noteq> []"
    and "resolve_actor_ids svc actors [] n = (Inr actor_ids, n1)" and "actor_ids \<noteq> []"
    and "collect_credits svc is_series actor_ids [] n1 = (Inr all_results, n2)"
  shows "(\<forall>r t. fst (search_by_actors svc actors is_series n) = (Some r, t)
            \<longrightarrow> (\<exists>k. map_of r ''id'' = Some k \<and> r \<in> set all_results
                    \<and> (\<forall>k'. frequency_of k' all_results \<le> frequency_of k all_results)
                    \<and> min 2 (length actor_ids) \<le> frequency_of k all_results
                    \<and> t = Some (\<not> is_series)))
         \<and> ((\<exists>k. min 2 (length actor_ids) \<le> frequency_of k all_results)
              \<longleftrightarrow> (\<exists>r. fst (search_by_actors svc actors is_series n)
                         = (Some r, Some (\<not> is_series))))
         \<and> ((\<forall>k. frequency_of k all_results < min 2 (length actor_ids))
              \<longleftrightarrow> fst (search_by_actors svc actors is_series n) = (None, None))
         \<and> (length actor_ids = 3 \<and> (\<exists>k. frequency_of k all_results = 2)
              \<longrightarrow> (\<exists>r. fst (search_by_actors svc actors is_series n)
                         = (Some r, Some (\<not> is_series))))
         \<and> (length actor_ids = 3 \<and> (\<forall>k. frequency_of k all_results \<le> 1)
              \<longrightarrow> fst (search_by_actors svc actors is_series n) = (None, None))"
proof -
  define m where "m = min 2 (length actor_ids)"
  define res where "res = fst (search_by_actors svc actors is_series n)"
  define f where "f = (\<lambda>k. frequency_of k all_results)"
  from assms(3) have m1: "1 \<le> m" unfolding m_def by (cases actor_ids) auto
  have m3: "length actor_ids = 3 \<Longrightarrow> m = 2" unfolding m_def by simp
  from search_by_actors_resolved[OF assms]
  have sb: "\<And>r. cross_reference actor_ids all_results is_series = Inr r \<Longrightarrow> res = r"
    unfolding res_def by simp
  have main:
    "(\<forall>r t. res = (Some r, t)
            \<longrightarrow> (\<exists>k. map_of r ''id'' = Some k \<and> r \<in> set all_results
                    \<and> (\<forall>k'. f k' \<le> f k) \<and> m \<le> f k \<and> t = Some (\<not> is_series)))
         \<and> ((\<exists>k. m \<le> f k) \<longleftrightarrow> (\<exists>r. res = (Some r, Some (\<not> is_series))))
         \<and> ((\<forall>k. f k < m) \<longleftrightarrow> res = (None, None))
         \<and> (length actor_ids = 3 \<and> (\<exists>k. f k = 2)
              \<longrightarrow> (\<exists>r. res = (Some r, Some (\<not> is_series))))
         \<and> (length actor_ids = 3 \<and> (\<forall>k. f k \<le> 1) \<longrightarrow> res = (None, None))"
    using cross_reference_cases[of all_results actor_ids is_series]
  proof (elim disjE conjE exE)
    assume c: "cross_reference actor_ids all_results is_series = Inr (None, None)"
      and z: "\<forall>k. frequency_of k all_results = 0"
    from sb[OF c] have r: "res = (None, None)" .
    from z have z': "\<forall>k. f k = 0" by (simp add: f_def)
    from m1 have "0 < m" by linarith
    with z' have lt: "\<forall>k. f k < m" by presburger
    then have nle: "\<not> (\<exists>k. m \<le> f k)" by (meson not_le)
    from z' have n2: "\<not> (\<exists>k. f k = 2)" by simp
    show ?thesis using r lt nle n2 by simp
  next
    fix k r
    assume p: "0 < frequency_of k all_results"
      and mx0: "\<forall>k'. frequency_of k' all_results \<le> frequency_of k all_results"
      and rin: "r \<in> set all_results" and rid: "map_of r ''id'' = Some k"
      and c0: "cross_reference actor_ids all_results is_series
              = (if min 2 (length actor_ids) \<le> frequency_of k all_results
                 then Inr (Some r, Some (\<not> is_series)) else Inr (None, None))"
    from mx0 have mx: "\<forall>k'. f k' \<le> f k" by (simp add: f_def)
    from c0 have c: "cross_reference actor_ids all_results is_series
              = (if m \<le> f k then Inr (Some r, Some (\<not> is_series)) else Inr (None, None))"
      by (simp only: m_def f_def)
    show ?thesis
    proof (cases "m \<le> f k")
      case True
      with c sb have r: "res = (Some r, Some (\<not> is_series))" by simp
      from True have ex: "\<exists>k. m \<le> f k" by blast
      then have nall: "\<not> (\<forall>k. f k < m)" by (meson not_le)
      have five: "length actor_ids = 3 \<and> (\<forall>k. f k \<le> 1) \<longrightarrow> res = (None, None)"
      proof
        assume a: "length actor_ids = 3 \<and> (\<forall>k. f k \<le> 1)"
        then have "f k \<le> 1" by blast
        with True m3 a show "res = (None, None)" by simp
      qed
      show ?thesis using r rid rin mx True ex nall five by auto
    next
      case False
      with c sb have r: "res = (None, None)" by simp
      from False mx have lt: "\<forall>k'. f k' < m" by (meson le_less_trans not_le)
      then have nex: "\<not> (\<exists>k. m \<le> f k)" by (meson not_le)
      have four: "length actor_ids = 3 \<and> (\<exists>k. f k = 2)
                  \<longrightarrow> (\<exists>r. res = (Some r, Some (\<not> is_series)))"
      proof
        assume a: "length actor_ids = 3 \<and> (\<exists>k. f k = 2)"
        then obtain j where "f j = 2" by blast
        moreover from a m3 have "m = 2" by simp
        ultimately have False using lt by (metis less_irrefl)
        then show "\<exists>r. res = (Some r, Some (\<not> is_series))" ..
      qed
      show ?thesis using r lt nex four by simp
    qed
  qed
  then show ?thesis unfolding m_def res_def f_def .
qed

lemma cross_reference_threshold_examples:
  "three_actors \<noteq> []
   \<and> resolve_actor_ids shared_cast three_actors [] 0 = (Inr [JNum 1, JNum 2, JNum 3], 3)
   \<and> collect_credits shared_cast False [JNum 1, JNum 2, JNum 3] [] 3
     = (Inr [title_of 10, title_of 20, title_of 10, title_of 30], 6)
   \<and> frequency_of (JNum 10) [title_of 10, title_of 20, title_of 10, title_of 30] = 2
   \<and> (\<exists>r. fst (search_by_actors shared_cast three_actors False 0) = (Some r, Some True))
   \<and> collect_credits solo_cast False [JNum 1, JNum 2, JNum 3] [] 3
     = (Inr [title_of 10, title_of 20, title_of 40, title_of 30], 6)
   \<and> fst (search_by_actors solo_cast three_actors False 0) = (None, None)"
proof -
  have a: "three_actors \<noteq> []" by (simp add: three_actors_def)
  have r1: "resolve_actor_ids shared_cast three_actors [] 0 = (Inr [JNum 1, JNum 2, JNum 3], 3)"
    by (simp add: shared_cast_def three_actors_def numeral_3_eq_3)
  have r2: "resolve_actor_ids solo_cast three_actors [] 0 = (Inr [JNum 1, JNum 2, JNum 3], 3)"
    by (simp add: solo_cast_def three_actors_def numeral_3_eq_3)
  have c1: "collect_credits shared_cast False [JNum 1, JNum 2, JNum 3] [] 3
            = (Inr [title_of 10, title_of 20, title_of 10, title_of 30], 6)"
    by (simp add: shared_cast_def eval_nat_numeral)
  have c2: "collect_credits solo_cast False [JNum 1, JNum 2, JNum 3] [] 3
            = (Inr [title_of 10, title_of 20, title_of 40, title_of 30], 6)"
    by (simp add: solo_cast_def eval_nat_numeral)
  have ne: "[JNum 1, JNum 2, JNum 3] \<noteq> []" by simp
  have l3: "length [JNum 1, JNum 2, JNum 3] = 3" by simp
  have f2: "frequency_of (JNum 10) [title_of 10, title_of 20, title_of 10, title_of 30] = 2"
    by (simp add: frequency_of_def title_of_def)
  have f1: "\<forall>k. frequency_of k [title_of 10, title_of 20, title_of 40, title_of 30] \<le> 1"
    by (auto simp: frequency_of_def title_of_def)
  have acc: "\<exists>r. fst (search_by_actors shared_cast three_actors False 0) = (Some r, Some True)"
    using cross_reference_threshold[OF a r1 ne c1] l3 f2 by (simp only: not_False_eq_True) blast
  have rej: "fst (search_by_actors solo_cast three_actors False 0) = (None, None)"
    using cross_reference_threshold[OF a r2 ne c2] l3 f1 by blast
  show ?thesis using a r1 c1 f2 acc c2 rej by blast
qed

text \<open>
  C2. Claim: the most frequent title is returned if and only if its frequency is at least
  \<open>min 2 (number of actors)\<close>, and with three actors a title that appears in one credit
  list only is rejected. The sources count the entries of the credit lists taken
  together, not the lists that hold a title: when the credits of one actor list a title
  twice (two roles in one film) and no other actor has it, the title appears in one of
  the three credit lists, its count is two, and it is returned.
\<close>

theorem search_by_actors_counts_entries:
  "resolve_actor_ids double_credit three_actors [] 0 = (Inr [JNum 1, JNum 2, JNum 3], 3)
   \<and> credits double_credit 3 False (JNum 1) = Status 200 (Some [title_of 10, title_of 10])
   \<and> credits double_credit 4 False (JNum 2) = Status 200 (Some [title_of 20])
   \<and> credits double_credit 5 False (JNum 3) = Status 200 (Some [title_of 30])
   \<and> length (filter (\<lambda>cast. title_of 10 \<in> set cast)
               [[title_of 10, title_of 10], [title_of 20], [title_of 30]]) = 1
   \<and> search_by_actors double_credit three_actors False 0 = ((Some (title_of 10), Some True), 6)"
proof -
  have r: "resolve_actor_ids double_credit three_actors [] 0 = (Inr [JNum 1, JNum 2, JNum 3], 3)"
    by (simp add: double_credit_def three_actors_def numeral_3_eq_3)
  have c: "collect_credits double_credit False [JNum 1, JNum 2, JNum 3] [] 3
           = (Inr [title_of 10, title_of 10, title_of 20, title_of 30], 6)"
    by (simp add: double_credit_def eval_nat_numeral)
  have x: "cross_reference [JNum 1, JNum 2, JNum 3]
             [title_of 10, title_of 10, title_of 20, title_of 30] False
           = Inr (Some (title_of 10), Some True)"
    by (simp add: cross_reference_def most_common_def title_of_def)
  have s: "search_by_actors double_credit three_actors False 0 = ((Some (title_of 10), Some True), 6)"
    using r c x by (simp add: search_by_actors_def search_by_actors_body_def three_actors_def)
  have l: "length (filter (\<lambda>cast. title_of 10 \<in> set cast)
               [[title_of 10, title_of 10], [title_of 20], [title_of 30]]) = 1"
    by (simp add: title_of_def)
  show ?thesis using r s l by (simp add: double_credit_def)
qed

subsection \<open>Placement: \<^verbatim>\<open>safe_move_file\<close>\<close>

text \<open>
  When the destination exists and the name with the suffix is free, the file goes to
  the name with the suffix and the file at the destination is left as it was.
\<close>

lemma safe_move_file_first_collision:
  assumes "fsys src = Some content" and "fsys dest \<noteq> None"
    and "fsys (duplicate_name dest) = None"
    and "makedirs env (dirname dest) = Inr ()" and "move_raises env src (duplicate_name dest) = None"
    and "src \<noteq> dest" and "src \<noteq> duplicate_name dest" and "dest \<noteq> duplicate_name dest"
  shows "fst (safe_move_file env fsys src dest True)
         \<and> snd (safe_move_file env fsys src dest True) dest = fsys dest
         \<and> snd (safe_move_file env fsys src dest True) (duplicate_name dest) = Some content"
  using assms by (simp add: safe_move_file_def path_exists_def shutil_move_def)

text \<open>
  C7. Claim: a file whose destination exists is placed under a name with a collision
  suffix, and placement, run any number of times on files that resolve to the same
  destination, never overwrites a file placed before. The sources have one suffix only:
  the third file sent to \<^verbatim>\<open>out/m.mkv\<close> is moved onto \<^verbatim>\<open>out/m_duplicado.mkv\<close>, where the
  second file was placed, and the content of the second file is nowhere on the disk.
\<close>

theorem safe_move_file_third_overwrites:
  "placed_three ''out/m.mkv'' = Some ''A''
   \<and> placed_three ''out/m_duplicado.mkv'' = Some ''C''
   \<and> (\<forall>p. placed_three p \<noteq> Some ''B'')"
  by (simp add: placed_three_def three_sources_def safe_move_file_def os_defs path_defs)

subsection \<open>Restore: \<^verbatim>\<open>restore_from_backup\<close>\<close>

text \<open>
  C5. Restore moves a file only for a row whose status is \<^verbatim>\<open>success\<close> and whose recorded
  new path exists when the row is read. A row with another status, or a success row
  whose new path is missing, leaves the state as it was (no move, and the error counter
  unchanged); a step that changes the state was taken on a success row with an existing
  new path; every row handed to \<^verbatim>\<open>shutil.move\<close> is a success row; and a log without
  an eligible row restores nothing and counts no error.
\<close>

theorem restore_moves_only_existing_success:
  "(status row \<noteq> ''success'' \<or> \<not> path_exists (disk st) (ruta_nueva row)
      \<longrightarrow> restore_row env row st = Inr st)
   \<and> (restore_row env row st = Inr st' \<and> st' \<noteq> st
      \<longrightarrow> status row = ''success'' \<and> path_exists (disk st) (ruta_nueva row))
   \<and> (\<forall>r \<in> set (moved (restore_from_backup env fs0 backup)). status r = ''success'')
   \<and> ((\<forall>r \<in> set rows. status r \<noteq> ''success'' \<or> \<not> path_exists fs0 (ruta_nueva r))
      \<longrightarrow> restore_from_backup env fs0 (Some rows)
          = \<lparr>disk = fs0, restored = 0, errors = 0, moved = []\<rparr>)"
proof (intro conjI impI)
  assume "status row \<noteq> ''success'' \<or> \<not> path_exists (disk st) (ruta_nueva row)"
  then show "restore_row env row st = Inr st" by (rule restore_row_skip)
next
  assume a: "restore_row env row st = Inr st' \<and> st' \<noteq> st"
  then show "status row = ''success''" using restore_row_changed by blast
  from a show "path_exists (disk st) (ruta_nueva row)" using restore_row_changed by blast
next
  show "\<forall>r \<in> set (moved (restore_from_backup env fs0 backup)). status r = ''success''"
  proof (cases backup)
    case None
    then show ?thesis by (simp add: restore_from_backup_def)
  next
    case (Some rs)
    with restore_rows_moved[of env rs "\<lparr>disk = fs0, restored = 0, errors = 0, moved = []\<rparr>"]
    show ?thesis by (auto simp: restore_from_backup_def)
  qed
next
  assume "\<forall>r \<in> set rows. status r \<noteq> ''success'' \<or> \<not> path_exists fs0 (ruta_nueva r)"
  then show "restore_from_backup env fs0 (Some rows)
             = \<lparr>disk = fs0, restored = 0, errors = 0, moved = []\<rparr>"
    using restore_rows_none_eligible[of rows "\<lparr>disk = fs0, restored = 0, errors = 0, moved = []\<rparr>" env]
    by (simp add: restore_from_backup_def)
qed

theorem restore_moves_only_existing_success_witness:
  "status row_failed \<noteq> ''success''
   \<and> restore_row quiet_env row_failed start_state = Inr start_state
   \<and> status row_gone = ''success'' \<and> \<not> path_exists (disk start_state) (ruta_nueva row_gone)
   \<and> restore_row quiet_env row_gone start_state = Inr start_state
   \<and> restore_row quiet_env row_a start_state \<noteq> Inr start_state
   \<and> status row_a = ''success'' \<and> path_exists (disk start_state) (ruta_nueva row_a)
   \<and> moved (restore_from_backup quiet_env placed_disk (Some [row_a, row_failed, row_gone]))
     = [row_a]
   \<and> restore_from_backup quiet_env placed_disk (Some [row_failed, row_gone]) = start_state"
  using
    restore_moves_only_existing_success[of row_failed start_state quiet_env start_state
      placed_disk "Some [row_a, row_failed, row_gone]" "[row_failed, row_gone]"]
    restore_moves_only_existing_success[of row_gone start_state quiet_env start_state
      placed_disk None "[]"]
    restore_moves_only_existing_success[of row_a start_state quiet_env
      "\<lparr>disk = (placed_disk(''out/a.mkv'' := None))(''in/a.mkv'' \<mapsto> ''A''), restored = 1,
        errors = 0, moved = [row_a]\<rparr>" placed_disk None "[]"]
  by (simp add: restore_from_backup_def restore_row_def start_state_def placed_disk_def
        row_a_def row_failed_def row_gone_def os_defs path_defs)

text \<open>
  C6. Claim: restore replays the success rows in reverse order, the row appended last
  first. The loop reads the rows in file order: on a log of two success rows whose files
  are both in place, the row appended first is moved first.
\<close>

theorem restore_reverse_order_counterexample:
  "moved (restore_from_backup quiet_env placed_disk (Some [row_a, row_b])) = [row_a, row_b]
   \<and> hd (moved (restore_from_backup quiet_env placed_disk (Some [row_a, row_b])))
     \<noteq> last [row_a, row_b]"
  by (simp add: restore_from_backup_def restore_row_def placed_disk_def row_a_def row_b_def
        os_defs path_defs)

text \<open>
  C6, amended. Restore replays the success rows in the order in which they were
  appended. The rows handed to \<^verbatim>\<open>shutil.move\<close> are always a subsequence of the log, taken
  front to back; and when every success row of the log has its new path on the disk and
  a directory for its original path can be made, the new paths of the success rows being
  pairwise different, then the rows moved back are exactly the success rows of the log,
  in log order, each counted as restored or as an error.
\<close>

theorem restore_replays_in_log_order:
  "subseq (moved (restore_from_backup env fs0 (Some rows))) rows
   \<and> ((\<forall>r \<in> set rows. status r = ''success''
           \<longrightarrow> path_exists fs0 (ruta_nueva r)
               \<and> makedirs env (dirname (ruta_original r)) = Inr ())
        \<and> distinct (map ruta_nueva (filter (\<lambda>r. status r = ''success'') rows))
      \<longrightarrow> moved (restore_from_backup env fs0 (Some rows))
            = filter (\<lambda>r. status r = ''success'') rows
          \<and> restored (restore_from_backup env fs0 (Some rows))
            + errors (restore_from_backup env fs0 (Some rows))
            = length (filter (\<lambda>r. status r = ''success'') rows))"
proof (intro conjI impI)
  show "subseq (moved (restore_from_backup env fs0 (Some rows))) rows"
    using restore_rows_moved[of env rows "\<lparr>disk = fs0, restored = 0, errors = 0, moved = []\<rparr>"]
    by (auto simp: restore_from_backup_def)
next
  assume a: "(\<forall>r \<in> set rows. status r = ''success''
           \<longrightarrow> path_exists fs0 (ruta_nueva r)
               \<and> makedirs env (dirname (ruta_original r)) = Inr ())
        \<and> distinct (map ruta_nueva (filter (\<lambda>r. status r = ''success'') rows))"
  from a restore_rows_success_rows[of rows "\<lparr>disk = fs0, restored = 0, errors = 0, moved = []\<rparr>" env]
  show "moved (restore_from_backup env fs0 (Some rows))
            = filter (\<lambda>r. status r = ''success'') rows"
    by (simp add: restore_from_backup_def)
  from a restore_rows_success_rows[of rows "\<lparr>disk = fs0, restored = 0, errors = 0, moved = []\<rparr>" env]
  show "restored (restore_from_backup env fs0 (Some rows))
            + errors (restore_from_backup env fs0 (Some rows))
            = length (filter (\<lambda>r. status r = ''success'') rows)"
    by (simp add: restore_from_backup_def)
qed

theorem restore_replays_in_log_order_witness:
  "status row_a = ''success'' \<and> status row_failed \<noteq> ''success'' \<and> status row_b = ''success''
   \<and> path_exists placed_disk (ruta_nueva row_a) \<and> path_exists placed_disk (ruta_nueva row_b)
   \<and> distinct (map ruta_nueva (filter (\<lambda>r. status r = ''success'') [row_a, row_failed, row_b]))
   \<and> moved (restore_from_backup quiet_env placed_disk (Some [row_a, row_failed, row_b]))
     = [row_a, row_b]
   \<and> restored (restore_from_backup quiet_env placed_disk (Some [row_a, row_failed, row_b])) = 2
   \<and> disk (restore_from_backup quiet_env placed_disk (Some [row_a, row_failed, row_b]))
        ''in/a.mkv'' = Some ''A''
   \<and> disk (restore_from_backup quiet_env placed_disk (Some [row_a, row_failed, row_b]))
        ''in/b.mkv'' = Some ''B''"
  using restore_replays_in_log_order[of quiet_env placed_disk "[row_a, row_failed, row_b]"]
  by (simp add: restore_from_backup_def restore_row_def placed_disk_def row_a_def row_b_def
        row_failed_def os_defs path_defs)

subsection \<open>The status column\<close>

text \<open>
  C9. Claim: every row appended to the backup log has a status in
  \<^verbatim>\<open>{success, error_origin, error_move, error:<msg>, no_action}\<close>. The row written for a
  source file that does not exist has the status \<^verbatim>\<open>error_origen\<close>, which is not in that
  set.
\<close>

theorem status_set_counterexample:
  "status (fst (process_file_operation quiet_env Map.empty [] ''in/a.mkv'' (Failed ''x'') ''out''))
     = ''error_origen''
   \<and> \<not> spec_status (status (fst (process_file_operation quiet_env Map.empty [] ''in/a.mkv''
                                  (Failed ''x'') ''out'')))"
  by (simp add: process_file_operation_def path_exists_def spec_status_def Let_def)

text \<open>
  C9, amended. The status of the row a file operation builds is decided by the case:
  \<^verbatim>\<open>error_origen\<close> when the source file does not exist; \<^verbatim>\<open>error: \<close> followed by the text of
  the exception when computing the destination raises one; \<^verbatim>\<open>success\<close> when the move
  succeeds and \<^verbatim>\<open>error_mover\<close> when it fails, the row then carrying the destination as its
  new path; \<^verbatim>\<open>no_action\<close> when the batch runs without moving. So every status is in
  \<^verbatim>\<open>{success, error_origen, error_mover, no_action}\<close> or of the form \<^verbatim>\<open>error: <msg>\<close>, and
  the row returned is the row appended to the log, unless writing the log fails, in
  which case the log is unchanged.
\<close>

theorem file_operation_status:
  "(\<not> path_exists fsys src
      \<longrightarrow> status (fst (process_file_operation env fsys bklog src result out)) = ''error_origen'')
   \<and> (path_exists fsys src
       \<and> destination result out (basename src) (lower (snd (splitext (basename src))))
           = Inl (Exn msg)
      \<longrightarrow> status (fst (process_file_operation env fsys bklog src result out)) = ''error: '' @ msg)
   \<and> (path_exists fsys src
       \<and> destination result out (basename src) (lower (snd (splitext (basename src))))
           = Inr (d, f)
      \<longrightarrow> status (fst (process_file_operation env fsys bklog src result out))
            = (if fst (safe_move_file env fsys src f True) then ''success'' else ''error_mover'')
          \<and> ruta_nueva (fst (process_file_operation env fsys bklog src result out)) = f)
   \<and> status (fst (batch_file_step False env fsys bklog src result out)) = ''no_action''
   \<and> batch_file_step True env fsys bklog src result out
       = process_file_operation env fsys bklog src result out
   \<and> written_status (status (fst (batch_file_step rn env fsys bklog src result out)))
   \<and> (append_raises env (length bklog) = None
      \<longrightarrow> snd (snd (batch_file_step rn env fsys bklog src result out))
            = bklog @ [fst (batch_file_step rn env fsys bklog src result out)])
   \<and> (append_raises env (length bklog) \<noteq> None
      \<longrightarrow> snd (snd (batch_file_step rn env fsys bklog src result out)) = bklog)"
proof (intro conjI impI)
  assume "\<not> path_exists fsys src"
  then show "status (fst (process_file_operation env fsys bklog src result out)) = ''error_origen''"
    by (simp add: process_file_operation_missing)
next
  assume "path_exists fsys src
       \<and> destination result out (basename src) (lower (snd (splitext (basename src))))
           = Inl (Exn msg)"
  then show "status (fst (process_file_operation env fsys bklog src result out)) = ''error: '' @ msg"
    by (simp add: process_file_operation_raises)
next
  assume a: "path_exists fsys src
       \<and> destination result out (basename src) (lower (snd (splitext (basename src))))
           = Inr (d, f)"
  then show "status (fst (process_file_operation env fsys bklog src result out))
            = (if fst (safe_move_file env fsys src f True) then ''success'' else ''error_mover'')"
    by (simp add: process_file_operation_moves)
  from a show "ruta_nueva (fst (process_file_operation env fsys bklog src result out)) = f"
    by (simp add: process_file_operation_moves stamped_def new_row_def)
next
  show "status (fst (batch_file_step False env fsys bklog src result out)) = ''no_action''"
    by (simp add: batch_file_step_def Let_def)
next
  show "batch_file_step True env fsys bklog src result out
       = process_file_operation env fsys bklog src result out"
    by (simp add: batch_file_step_def)
next
  show "written_status (status (fst (batch_file_step rn env fsys bklog src result out)))"
    using process_file_operation_status[of env fsys bklog src result out]
    by (simp add: batch_file_step_def Let_def written_status_def)
next
  assume "append_raises env (length bklog) = None"
  then show "snd (snd (batch_file_step rn env fsys bklog src result out))
            = bklog @ [fst (batch_file_step rn env fsys bklog src result out)]"
    by (auto simp: batch_file_step_def process_file_operation_def Let_def append_to_backup_ok
          split: sum.splits exn.splits prod.splits)
next
  assume "append_raises env (length bklog) \<noteq> None"
  then show "snd (snd (batch_file_step rn env fsys bklog src result out)) = bklog"
    by (auto simp: batch_file_step_def process_file_operation_def Let_def append_to_backup_def
          split: sum.splits exn.splits prod.splits)
qed

theorem file_operation_status_witness:
  "\<not> path_exists Map.empty ''in/a.mkv''
   \<and> status (fst (process_file_operation quiet_env Map.empty [] ''in/a.mkv'' hbo_file ''out''))
     = ''error_origen''
   \<and> path_exists three_sources ''in/a.mkv''
   \<and> destination untitled_movie ''out'' (basename ''in/a.mkv'')
        (lower (snd (splitext (basename ''in/a.mkv''))))
      = Inl (Exn ''expected string or bytes-like object'')
   \<and> status (fst (process_file_operation quiet_env three_sources [] ''in/a.mkv'' untitled_movie
                     ''out''))
     = ''error: expected string or bytes-like object''
   \<and> destination hbo_file ''out'' (basename ''in/a.mkv'')
        (lower (snd (splitext (basename ''in/a.mkv''))))
      = Inr (''out/ByStudio/HBO'', ''out/ByStudio/HBO/a.mkv'')
   \<and> fst (safe_move_file quiet_env three_sources ''in/a.mkv'' ''out/ByStudio/HBO/a.mkv'' True)
   \<and> status (fst (process_file_operation quiet_env three_sources [] ''in/a.mkv'' hbo_file ''out''))
     = ''success''
   \<and> \<not> fst (safe_move_file denied_env three_sources ''in/a.mkv'' ''out/ByStudio/HBO/a.mkv'' True)
   \<and> status (fst (process_file_operation denied_env three_sources [] ''in/a.mkv'' hbo_file ''out''))
     = ''error_mover''
   \<and> status (fst (batch_file_step False quiet_env three_sources [] ''in/a.mkv'' hbo_file ''out''))
     = ''no_action''
   \<and> append_raises quiet_env (length ([] :: backup_row list)) = None
   \<and> snd (snd (batch_file_step True quiet_env three_sources [] ''in/a.mkv'' hbo_file ''out''))
     = [fst (batch_file_step True quiet_env three_sources [] ''in/a.mkv'' hbo_file ''out'')]"
proof -
  have d1: "destination untitled_movie ''out'' (basename ''in/a.mkv'')
        (lower (snd (splitext (basename ''in/a.mkv''))))
      = Inl (Exn ''expected string or bytes-like object'')"
    by (simp add: untitled_movie_def year_of_def dict_get_def create_movie_path_def
          type_error_def)
  have d2: "destination hbo_file ''out'' (basename ''in/a.mkv'')
        (lower (snd (splitext (basename ''in/a.mkv''))))
      = Inr (''out/ByStudio/HBO'', ''out/ByStudio/HBO/a.mkv'')"
    by (simp add: hbo_file_def create_studio_path_def sanitize_filename_def path_defs)
  have e1: "\<not> path_exists Map.empty ''in/a.mkv''" by (simp add: path_exists_def)
  have e2: "path_exists three_sources ''in/a.mkv''"
    by (simp add: path_exists_def three_sources_def)
  have m1: "fst (safe_move_file quiet_env three_sources ''in/a.mkv'' ''out/ByStudio/HBO/a.mkv'' True)"
    by (simp add: safe_move_file_def three_sources_def os_defs path_defs)
  have m2: "\<not> fst (safe_move_file denied_env three_sources ''in/a.mkv'' ''out/ByStudio/HBO/a.mkv'' True)"
    by (simp add: safe_move_file_def three_sources_def denied_env_def os_defs path_defs)
  have q: "append_raises quiet_env (length ([] :: backup_row list)) = None"
    by (simp add: quiet_env_def)
  have s1: "status (fst (process_file_operation quiet_env Map.empty [] ''in/a.mkv'' hbo_file ''out''))
     = ''error_origen''"
    using file_operation_status[where fsys = Map.empty and src = "''in/a.mkv''"
        and env = quiet_env and bklog = "[]" and result = hbo_file and out = "''out''"] e1
    by blast
  have s2: "status (fst (process_file_operation quiet_env three_sources [] ''in/a.mkv'' untitled_movie
                     ''out''))
     = ''error: '' @ ''expected string or bytes-like object''"
    using file_operation_status[where fsys = three_sources and src = "''in/a.mkv''"
        and env = quiet_env and bklog = "[]" and result = untitled_movie and out = "''out''"
        and msg = "''expected string or bytes-like object''"] e2 d1
    by blast
  have s3: "status (fst (process_file_operation quiet_env three_sources [] ''in/a.mkv'' hbo_file ''out''))
     = (if fst (safe_move_file quiet_env three_sources ''in/a.mkv'' ''out/ByStudio/HBO/a.mkv'' True)
        then ''success'' else ''error_mover'')"
    using file_operation_status[where fsys = three_sources and src = "''in/a.mkv''"
        and env = quiet_env and bklog = "[]" and result = hbo_file and out = "''out''"
        and d = "''out/ByStudio/HBO''" and f = "''out/ByStudio/HBO/a.mkv''"] e2 d2
    by blast
  have s4: "status (fst (process_file_operation denied_env three_sources [] ''in/a.mkv'' hbo_file ''out''))
     = (if fst (safe_move_file denied_env three_sources ''in/a.mkv'' ''out/ByStudio/HBO/a.mkv'' True)
        then ''success'' else ''error_mover'')"
    using file_operation_status[where fsys = three_sources and src = "''in/a.mkv''"
        and env = denied_env and bklog = "[]" and result = hbo_file and out = "''out''"
        and d = "''out/ByStudio/HBO''" and f = "''out/ByStudio/HBO/a.mkv''"] e2 d2
    by blast
  have s5: "status (fst (batch_file_step False quiet_env three_sources [] ''in/a.mkv'' hbo_file ''out''))
     = ''no_action''"
    using file_operation_status[where fsys = three_sources and src = "''in/a.mkv''"
        and env = quiet_env and bklog = "[]" and result = hbo_file and out = "''out''"]
    by blast
  have s6: "snd (snd (batch_file_step True quiet_env three_sources [] ''in/a.mkv'' hbo_file ''out''))
     = [] @ [fst (batch_file_step True quiet_env three_sources [] ''in/a.mkv'' hbo_file ''out'')]"
    using file_operation_status[where fsys = three_sources and src = "''in/a.mkv''"
        and env = quiet_env and bklog = "[]" and result = hbo_file and out = "''out''"
        and rn = True] q
    by blast
  show ?thesis
    using s1 s2 s3 s4 s5 s6 d1 d2 e1 e2 m1 m2 q by simp
qed

end
